theory Spec2Isabelle
  imports Main "HOL-Library.Char_ord" "HOL-Library.List_Lexorder" "HOL-Library.Product_Lexorder"
begin

section \<open>Python primitives used by the sources\<close>

text \<open>
  Strings are ASCII byte lists. The Python built-ins the sources call are written out:
  \<^verbatim>\<open>str.strip\<close>, \<^verbatim>\<open>str.split\<close>, \<^verbatim>\<open>str.lower\<close>, \<^verbatim>\<open>str.startswith\<close>,
  \<^verbatim>\<open>int(s)\<close> and \<^verbatim>\<open>str(n)\<close>. Every exception the sources can raise is a value.
\<close>

datatype error =
    ValueError
  | IndexError
  | KeyError
  | TypeError
  | AttributeError
  | JSONDecodeError
  | UsageError
  | CalledProcessError int
  | FileNotFoundError
  | ZeroDivisionError
  | SystemExit int

definition is_space :: "char \<Rightarrow> bool" where
  "is_space c = (of_char c \<in> set [9, 10, 11, 12, 13, 28, 29, 30, 31, 32 :: nat])"

definition strip :: "string \<Rightarrow> string" where
  "strip s = rev (dropWhile is_space (rev (dropWhile is_space s)))"

definition lower_char :: "char \<Rightarrow> char" where
  "lower_char c = (let n = (of_char c :: nat) in if 65 \<le> n \<and> n \<le> 90 then char_of (n + 32) else c)"

definition lower :: "string \<Rightarrow> string" where
  "lower s = map lower_char s"

fun startswith :: "string \<Rightarrow> string \<Rightarrow> bool" where
  "startswith s [] = True"
| "startswith [] (p # ps) = False"
| "startswith (c # cs) (p # ps) = (c = p \<and> startswith cs ps)"

text \<open>\<^verbatim>\<open>s.split(c)\<close> for a one-character separator: always at least one field.\<close>

fun split :: "char \<Rightarrow> string \<Rightarrow> string list" where
  "split c [] = [[]]"
| "split c (x # xs) =
     (if x = c then [] # split c xs
      else (case split c xs of [] \<Rightarrow> [[x]] | w # ws \<Rightarrow> (x # w) # ws))"

text \<open>\<^verbatim>\<open>s.split(c, n)\<close>: at most \<open>n\<close> splits, the rest of the string is the last field.\<close>

fun split_max :: "char \<Rightarrow> nat \<Rightarrow> string \<Rightarrow> string list" where
  "split_max c 0 s = [s]"
| "split_max c (Suc n) [] = [[]]"
| "split_max c (Suc n) (x # xs) =
     (if x = c then [] # split_max c n xs
      else (case split_max c (Suc n) xs of [] \<Rightarrow> [[x]] | w # ws \<Rightarrow> (x # w) # ws))"

text \<open>\<^verbatim>\<open>xs[i]\<close> for a non-negative index: \<^verbatim>\<open>IndexError\<close> out of range.\<close>

definition index_at :: "'a list \<Rightarrow> nat \<Rightarrow> error + 'a" where
  "index_at xs i = (if i < length xs then Inr (xs ! i) else Inl IndexError)"

text \<open>\<^verbatim>\<open>s[a:b]\<close> and \<^verbatim>\<open>s[a:]\<close> for non-negative bounds: slices never raise.\<close>

definition slice :: "'a list \<Rightarrow> nat \<Rightarrow> nat \<Rightarrow> 'a list" where
  "slice s a b = take (b - a) (drop a s)"

definition slice_from :: "'a list \<Rightarrow> nat \<Rightarrow> 'a list" where
  "slice_from s a = drop a s"

definition digit_val :: "char \<Rightarrow> nat option" where
  "digit_val c = (let n = (of_char c :: nat) in if 48 \<le> n \<and> n \<le> 57 then Some (n - 48) else None)"

text \<open>
  The digits of a decimal literal after the first one: single underscores may separate
  digits, as Python's \<^verbatim>\<open>int\<close> accepts them.
\<close>

fun digits_val :: "nat \<Rightarrow> string \<Rightarrow> nat option" where
  "digits_val acc [] = Some acc"
| "digits_val acc [c] =
     (case digit_val c of None \<Rightarrow> None | Some v \<Rightarrow> Some (acc * 10 + v))"
| "digits_val acc (c # d # ds) =
     (if c = CHR ''_'' then
        (case digit_val d of None \<Rightarrow> None | Some v \<Rightarrow> digits_val (acc * 10 + v) ds)
      else
        (case digit_val c of None \<Rightarrow> None | Some v \<Rightarrow> digits_val (acc * 10 + v) (d # ds)))"

definition unsigned_val :: "string \<Rightarrow> nat option" where
  "unsigned_val s =
     (case s of
        [] \<Rightarrow> None
      | c # cs \<Rightarrow> (case digit_val c of None \<Rightarrow> None | Some v \<Rightarrow> digits_val v cs))"

text \<open>\<^verbatim>\<open>int(s)\<close>: surrounding whitespace, an optional sign, decimal digits; \<^verbatim>\<open>ValueError\<close> otherwise.\<close>

definition py_int :: "string \<Rightarrow> error + int" where
  "py_int s =
     (case strip s of
        [] \<Rightarrow> Inl ValueError
      | c # cs \<Rightarrow>
          if c = CHR ''-'' then
            (case unsigned_val cs of None \<Rightarrow> Inl ValueError | Some n \<Rightarrow> Inr (- int n))
          else if c = CHR ''+'' then
            (case unsigned_val cs of None \<Rightarrow> Inl ValueError | Some n \<Rightarrow> Inr (int n))
          else
            (case unsigned_val (c # cs) of None \<Rightarrow> Inl ValueError | Some n \<Rightarrow> Inr (int n)))"

fun nat_digits :: "nat \<Rightarrow> string" where
  "nat_digits n =
     (if n < 10 then [char_of (48 + n)]
      else nat_digits (n div 10) @ [char_of (48 + n mod 10)])"

declare nat_digits.simps [simp del]

text \<open>\<^verbatim>\<open>str(n)\<close> for a Python integer.\<close>

definition py_str :: "int \<Rightarrow> string" where
  "py_str i = (if i < 0 then CHR ''-'' # nat_digits (nat (- i)) else nat_digits (nat i))"

text \<open>The list comprehension \<^verbatim>\<open>[f(x) for x in xs]\<close> when \<open>f\<close> may raise: the first error wins.\<close>

fun map_result :: "('a \<Rightarrow> error + 'b) \<Rightarrow> 'a list \<Rightarrow> error + 'b list" where
  "map_result f [] = Inr []"
| "map_result f (x # xs) =
     (case f x of
        Inl e \<Rightarrow> Inl e
      | Inr y \<Rightarrow> (case map_result f xs of Inl e \<Rightarrow> Inl e | Inr ys \<Rightarrow> Inr (y # ys)))"

text \<open>Truthiness of an optional string: \<^verbatim>\<open>None\<close> and the empty string are false.\<close>

definition truthy :: "string option \<Rightarrow> bool" where
  "truthy s = (case s of None \<Rightarrow> False | Some t \<Rightarrow> t \<noteq> [])"


text \<open>\<^verbatim>\<open>os.path.join(a, b)\<close> and \<^verbatim>\<open>os.path.basename(p)\<close> on POSIX paths.\<close>

definition path_join :: "string \<Rightarrow> string \<Rightarrow> string" where
  "path_join a b =
     (if startswith b ''/'' then b
      else if a = [] \<or> last a = CHR ''/'' then a @ b
      else a @ ''/'' @ b)"

definition basename :: "string \<Rightarrow> string" where
  "basename p = last (split CHR ''/'' p)"

text \<open>
  \<^verbatim>\<open>random.randint(lo, hi)\<close>: the generator's state is outside the program, so a draw takes
  the entropy it consumes as an argument and maps it into the closed range.
\<close>

definition randint :: "int \<Rightarrow> int \<Rightarrow> nat \<Rightarrow> int" where
  "randint lo hi r = lo + int (r mod nat (hi - lo + 1))"

section \<open>The wrapper script: styles and arguments\<close>

text \<open>
  The style file \<^verbatim>\<open>~/.mflux_styles.json\<close> is absent, unreadable as JSON, or a dictionary
  from style names to descriptions (in insertion order, as \<^verbatim>\<open>json.load\<close> returns it).
\<close>

datatype styles_file = NoFile | BadJson | Styles "(string \<times> string) list"

definition load_styles :: "styles_file \<Rightarrow> (string \<times> string) list" where
  "load_styles f = (case f of NoFile \<Rightarrow> [] | BadJson \<Rightarrow> [] | Styles d \<Rightarrow> d)"

text \<open>\<^verbatim>\<open>d[k] = v\<close> on an insertion-ordered dictionary.\<close>

fun dict_set :: "('k \<times> 'v) list \<Rightarrow> 'k \<Rightarrow> 'v \<Rightarrow> ('k \<times> 'v) list" where
  "dict_set [] k v = [(k, v)]"
| "dict_set ((k', v') # d) k v = (if k' = k then (k, v) # d else (k', v') # dict_set d k v)"

definition save_style :: "styles_file \<Rightarrow> string \<Rightarrow> string \<Rightarrow> styles_file" where
  "save_style f name description = Styles (dict_set (load_styles f) name description)"

definition get_style :: "styles_file \<Rightarrow> string \<Rightarrow> string option" where
  "get_style f name = map_of (load_styles f) name"

text \<open>
  The namespace \<^verbatim>\<open>argparse\<close> returns, with the attributes \<^verbatim>\<open>parse_args\<close> adds later:
  \<open>style_desc\<close> and \<open>iterate_steps\<close> are \<open>None\<close> while the attribute does not exist
  (\<^verbatim>\<open>hasattr\<close> is false), and \<open>style_desc = Some None\<close> is the attribute set to \<^verbatim>\<open>None\<close>.
\<close>

record args =
  arg_save_style :: "(string \<times> string) option"
  arg_list_styles :: bool
  style :: "string option"
  prompt :: "string option"
  model :: string
  new :: bool
  iterate :: "string option"
  resolution :: "string option"
  landscape :: bool
  landscape_sm :: bool
  landscape_lg :: bool
  landscape_xl :: bool
  portrait :: bool
  portrait_sm :: bool
  portrait_lg :: bool
  portrait_xl :: bool
  square_sm :: bool
  square_xl :: bool
  steps :: "int option"
  variations :: int
  metadata :: bool
  output_dir :: "string option"
  seed :: "int option"
  style_desc :: "string option option"
  iterate_steps :: "int list option"

text \<open>What \<^verbatim>\<open>parser.parse_args()\<close> gives for a command line that sets nothing.\<close>

definition default_args :: args where
  "default_args =
     \<lparr> arg_save_style = None, arg_list_styles = False, style = None, prompt = None,
       model = ''schnell'', new = False, iterate = None, resolution = Some ''1024x1024'',
       landscape = False, landscape_sm = False, landscape_lg = False, landscape_xl = False,
       portrait = False, portrait_sm = False, portrait_lg = False, portrait_xl = False,
       square_sm = False, square_xl = False, steps = None, variations = 4, metadata = False,
       output_dir = None, seed = None, style_desc = None, iterate_steps = None \<rparr>"

text \<open>The style branch of \<^verbatim>\<open>parse_args\<close> (the \<^verbatim>\<open>elif args.style:\<close> arm).\<close>

definition apply_style :: "styles_file \<Rightarrow> args \<Rightarrow> error + args" where
  "apply_style f a =
     (case style a of
        None \<Rightarrow> Inr a
      | Some name \<Rightarrow>
          if name = [] then Inr a
          else if lower name = ''none'' then Inr (a\<lparr>style := None, style_desc := Some None\<rparr>)
          else
            (case get_style f name of
               None \<Rightarrow> Inl ValueError
             | Some d \<Rightarrow>
                 if d = [] then Inl ValueError
                 else if truthy (prompt a)
                 then Inr (a\<lparr>prompt := Some (the (prompt a) @ '', '' @ d)\<rparr>)
                 else Inr (a\<lparr>style_desc := Some (Some d)\<rparr>)))"

text \<open>The format flags of \<^verbatim>\<open>parse_args\<close>, in the order of its \<^verbatim>\<open>if\<close>/\<^verbatim>\<open>elif\<close> chain.\<close>

definition any_format_flag :: "args \<Rightarrow> bool" where
  "any_format_flag a =
     (landscape a \<or> landscape_sm a \<or> landscape_lg a \<or> landscape_xl a \<or> portrait a \<or>
      portrait_sm a \<or> portrait_lg a \<or> portrait_xl a \<or> square_sm a \<or> square_xl a)"

definition set_resolution :: "args \<Rightarrow> args" where
  "set_resolution a =
     (if landscape a then a\<lparr>resolution := Some ''1024x576''\<rparr>
      else if landscape_sm a then a\<lparr>resolution := Some ''512x288''\<rparr>
      else if landscape_lg a then a\<lparr>resolution := Some ''1536x864''\<rparr>
      else if landscape_xl a then a\<lparr>resolution := Some ''2048x1152''\<rparr>
      else if portrait a then a\<lparr>resolution := Some ''768x1024''\<rparr>
      else if portrait_sm a then a\<lparr>resolution := Some ''384x512''\<rparr>
      else if portrait_lg a then a\<lparr>resolution := Some ''1152x1536''\<rparr>
      else if portrait_xl a then a\<lparr>resolution := Some ''1536x2048''\<rparr>
      else if square_sm a then a\<lparr>resolution := Some ''512x512''\<rparr>
      else if square_xl a then a\<lparr>resolution := Some ''2048x2048''\<rparr>
      else a)"

text \<open>The validation of \<^verbatim>\<open>--iterate\<close>: it needs a seed, and forces the variation count.\<close>

definition validate_iterate :: "args \<Rightarrow> error + args" where
  "validate_iterate a =
     (if truthy (iterate a) then
        (if seed a = None then Inl ValueError
         else
           (case map_result (\<lambda>s. py_int (strip s)) (split CHR '','' (the (iterate a))) of
              Inl e \<Rightarrow> Inl ValueError
            | Inr l \<Rightarrow>
                Inr (a\<lparr>iterate_steps := Some l, variations := int (length l), steps := None\<rparr>)))
      else Inr a)"

text \<open>
  \<^verbatim>\<open>parse_args\<close> after \<^verbatim>\<open>parser.parse_args()\<close>: it returns the style file as it leaves it
  and either the arguments or how the process ends (\<^verbatim>\<open>exit(0)\<close> after a style command).
\<close>

definition parse_args :: "styles_file \<Rightarrow> args \<Rightarrow> styles_file \<times> (error + args)" where
  "parse_args f a =
     (case arg_save_style a of
        Some (name, description) \<Rightarrow> (save_style f name description, Inl (SystemExit 0))
      | None \<Rightarrow>
          if arg_list_styles a then (f, Inl (SystemExit 0))
          else
            (case apply_style f a of
               Inl e \<Rightarrow> (f, Inl e)
             | Inr a1 \<Rightarrow> (f, validate_iterate (set_resolution a1))))"

definition get_default_steps :: "string \<Rightarrow> int" where
  "get_default_steps m = (if m = ''schnell'' then 1 else if m = ''dev'' then 5 else 1)"


section \<open>The wrapper script: run records and image generation\<close>

text \<open>
  The JSON value under \<^verbatim>\<open>"steps"\<close> of \<^verbatim>\<open>run_info.json\<close>: an integer, a string or a list of
  integers. One entry of \<^verbatim>\<open>"results"\<close> is a \<open>saved_result\<close>. Wall-clock fields
  (\<^verbatim>\<open>timestamp\<close>, \<^verbatim>\<open>generation_time\<close>) are left out.
\<close>

datatype steps_value = StepsInt int | StepsStr string | StepsList "int list" | StepsNull

record saved_result =
  sr_index :: int
  sr_seed :: int
  sr_steps :: int
  sr_file_path :: string

record run_info =
  ri_prompt :: "string option"
  ri_model :: string
  ri_steps :: steps_value
  ri_resolution :: "string option"
  ri_variations :: int
  ri_style :: "string option"
  ri_iterate :: "string option"
  ri_results :: "saved_result list"

text \<open>One element of \<^verbatim>\<open>results\<close> inside \<^verbatim>\<open>generate_images\<close>.\<close>

record image_info =
  index :: int
  img_seed :: int
  img_steps :: int
  file_path :: string
  metadata_path :: "string option"
  command :: "string list"

definition steps_or_default :: "args \<Rightarrow> int" where
  "steps_or_default a = (case steps a of Some n \<Rightarrow> n | None \<Rightarrow> get_default_steps (model a))"

text \<open>\<^verbatim>\<open>save_run_info\<close>: the record written to \<^verbatim>\<open>run_info.json\<close> after each successful image.\<close>

definition save_run_info :: "args \<Rightarrow> image_info list \<Rightarrow> run_info" where
  "save_run_info a rs =
     \<lparr> ri_prompt = prompt a, ri_model = model a, ri_steps = StepsInt (steps_or_default a),
       ri_resolution = resolution a, ri_variations = variations a, ri_style = style a,
       ri_iterate = iterate a,
       ri_results =
         map (\<lambda>r. \<lparr> sr_index = index r, sr_seed = img_seed r, sr_steps = img_steps r,
                     sr_file_path = basename (file_path r) \<rparr>) rs \<rparr>"

text \<open>
  The record \<^verbatim>\<open>create_output_directories\<close> writes before any image exists: under
  \<^verbatim>\<open>"steps"\<close> it stores the raw \<^verbatim>\<open>--iterate\<close> string when \<open>iterate_steps\<close> is set.
\<close>

definition initial_info :: "args \<Rightarrow> run_info" where
  "initial_info a =
     \<lparr> ri_prompt = prompt a, ri_model = model a,
       ri_steps =
         (if iterate_steps a \<noteq> None
          then (case iterate a of None \<Rightarrow> StepsNull | Some s \<Rightarrow> StepsStr s)
          else StepsInt (steps_or_default a)),
       ri_resolution = resolution a, ri_variations = variations a, ri_style = style a,
       ri_iterate = iterate a, ri_results = [] \<rparr>"

text \<open>\<^verbatim>\<open>width, height = map(int, args.resolution.split('x'))\<close>.\<close>

definition parse_resolution :: "string option \<Rightarrow> error + (int \<times> int)" where
  "parse_resolution r =
     (case r of
        None \<Rightarrow> Inl AttributeError
      | Some s \<Rightarrow>
          (case split CHR ''x'' s of
             [w, h] \<Rightarrow>
               (case py_int w of
                  Inl e \<Rightarrow> Inl e
                | Inr wi \<Rightarrow> (case py_int h of Inl e \<Rightarrow> Inl e | Inr hi \<Rightarrow> Inr (wi, hi)))
           | _ \<Rightarrow>
               (case map_result py_int (take 3 (split CHR ''x'' s)) of
                  Inl e \<Rightarrow> Inl e
                | Inr _ \<Rightarrow> Inl ValueError)))"

text \<open>The seed of loop index \<open>i\<close> (lines 343 to 346): \<open>rnd i\<close> is the entropy of a random draw.\<close>

definition variation_seed :: "args \<Rightarrow> (nat \<Rightarrow> nat) \<Rightarrow> nat \<Rightarrow> int" where
  "variation_seed a rnd i =
     (case seed a of Some s \<Rightarrow> s + int i | None \<Rightarrow> randint 1 1000000 (rnd i))"

definition build_cmd :: "args \<Rightarrow> string \<Rightarrow> int \<Rightarrow> int \<Rightarrow> int \<Rightarrow> int \<Rightarrow> string \<Rightarrow> string list" where
  "build_cmd a p current_steps sd width height output_path =
     [''mflux-generate'', ''--prompt'', p, ''--model'', model a,
      ''--steps'', py_str current_steps, ''--seed'', py_str sd,
      ''--width'', py_str width, ''--height'', py_str height, ''--output'', output_path]
     @ (if metadata a then [''--metadata''] else [])"

text \<open>
  The state of the loop of \<^verbatim>\<open>generate_images\<close>: the \<open>results\<close> list, the content of
  \<^verbatim>\<open>run_info.json\<close> in the run directory, and the commands spawned so far.
\<close>

record gen_state =
  results :: "image_info list"
  saved :: "run_info option"
  spawned :: "string list list"

text \<open>
  One iteration of the loop. \<open>ext i\<close> is the exit code of the process spawned at index
  \<open>i\<close>. A non-zero code raises \<^verbatim>\<open>CalledProcessError\<close> inside the \<^verbatim>\<open>try\<close>, whose handler
  prints it; the loop then goes on with the next index.
\<close>

definition gen_step ::
  "(nat \<Rightarrow> int) \<Rightarrow> (nat \<Rightarrow> nat) \<Rightarrow> args \<Rightarrow> string \<Rightarrow> int \<Rightarrow> int \<Rightarrow> int \<Rightarrow> nat \<Rightarrow> gen_state
    \<Rightarrow> error + gen_state" where
  "gen_step ext rnd a run_dir stp width height i st =
     (let sd = variation_seed a rnd i in
      case (case iterate_steps a of Some l \<Rightarrow> index_at l i | None \<Rightarrow> Inr stp) of
        Inl e \<Rightarrow> Inl e
      | Inr current_steps \<Rightarrow>
          (case prompt a of
             None \<Rightarrow> Inl TypeError
           | Some p \<Rightarrow>
               let output_path = path_join run_dir (''image_'' @ py_str (int i + 1) @ ''.png'');
                   cmd = build_cmd a p current_steps sd width height output_path;
                   st1 = st\<lparr>spawned := spawned st @ [cmd]\<rparr>
               in if ext i \<noteq> 0 then Inr st1
                  else
                    let info = \<lparr> index = int i + 1, img_seed = sd, img_steps = current_steps,
                                 file_path = output_path,
                                 metadata_path =
                                   (if metadata a then Some (output_path @ ''.json'') else None),
                                 command = cmd \<rparr>;
                        rs = results st1 @ [info]
                    in Inr (st1\<lparr>results := rs, saved := Some (save_run_info a rs)\<rparr>)))"

fun gen_loop ::
  "(nat \<Rightarrow> int) \<Rightarrow> (nat \<Rightarrow> nat) \<Rightarrow> args \<Rightarrow> string \<Rightarrow> int \<Rightarrow> int \<Rightarrow> int \<Rightarrow> nat list \<Rightarrow> gen_state
    \<Rightarrow> error + gen_state" where
  "gen_loop ext rnd a run_dir stp width height [] st = Inr st"
| "gen_loop ext rnd a run_dir stp width height (i # is) st =
     (case gen_step ext rnd a run_dir stp width height i st of
        Inl e \<Rightarrow> Inl e
      | Inr st1 \<Rightarrow> gen_loop ext rnd a run_dir stp width height is st1)"

text \<open>
  \<^verbatim>\<open>generate_images(args, run_dir)\<close>; \<open>info0\<close> is the \<^verbatim>\<open>run_info.json\<close> that
  \<^verbatim>\<open>create_output_directories\<close> left in the run directory.
\<close>

definition generate_images ::
  "(nat \<Rightarrow> int) \<Rightarrow> (nat \<Rightarrow> nat) \<Rightarrow> args \<Rightarrow> string \<Rightarrow> run_info option \<Rightarrow> error + gen_state" where
  "generate_images ext rnd a run_dir info0 =
     (case parse_resolution (resolution a) of
        Inl e \<Rightarrow> Inl e
      | Inr (width, height) \<Rightarrow>
          gen_loop ext rnd a run_dir (steps_or_default a) width height
            [0 ..< nat (variations a)] \<lparr> results = [], saved = info0, spawned = [] \<rparr>)"


section \<open>Dates and times\<close>

text \<open>
  A naive \<^verbatim>\<open>datetime\<close> is the tuple (year, month, day, hour, minute, second, microsecond);
  Python compares two of them field by field in this order, which is the lexicographic
  order of the tuple. A \<^verbatim>\<open>timedelta\<close> is a number of microseconds.
\<close>

type_synonym datetime = "int \<times> int \<times> int \<times> int \<times> int \<times> int \<times> int"

definition is_leap :: "int \<Rightarrow> bool" where
  "is_leap y = (y mod 4 = 0 \<and> (y mod 100 \<noteq> 0 \<or> y mod 400 = 0))"

definition days_in_month :: "int \<Rightarrow> int \<Rightarrow> int" where
  "days_in_month y m =
     (if m = 2 then (if is_leap y then 29 else 28)
      else if m = 4 \<or> m = 6 \<or> m = 9 \<or> m = 11 then 30 else 31)"

definition days_before_year :: "int \<Rightarrow> int" where
  "days_before_year year = (let y = year - 1 in y * 365 + y div 4 - y div 100 + y div 400)"

definition days_before_month :: "int \<Rightarrow> int \<Rightarrow> int" where
  "days_before_month y m =
     [0, 0, 31, 59, 90, 120, 151, 181, 212, 243, 273, 304, 334] ! nat m
       + (if 2 < m \<and> is_leap y then 1 else 0)"

definition ymd2ord :: "int \<Rightarrow> int \<Rightarrow> int \<Rightarrow> int" where
  "ymd2ord y m d = days_before_year y + days_before_month y m + d"

text \<open>The constructor \<^verbatim>\<open>datetime(year, month, day, hour, minute, second)\<close> checks every field.\<close>

definition mk_datetime :: "int \<Rightarrow> int \<Rightarrow> int \<Rightarrow> int \<Rightarrow> int \<Rightarrow> int \<Rightarrow> error + datetime" where
  "mk_datetime y m d hh mm ss =
     (if 1 \<le> y \<and> y \<le> 9999 \<and> 1 \<le> m \<and> m \<le> 12 \<and> 1 \<le> d \<and> d \<le> days_in_month y m \<and>
         0 \<le> hh \<and> hh \<le> 23 \<and> 0 \<le> mm \<and> mm \<le> 59 \<and> 0 \<le> ss \<and> ss \<le> 59
      then Inr (y, m, d, hh, mm, ss, 0)
      else Inl ValueError)"

text \<open>Microseconds since the start of day 0 of the proleptic Gregorian calendar.\<close>

definition micros :: "datetime \<Rightarrow> int" where
  "micros t =
     (case t of (y, m, d, hh, mm, ss, us) \<Rightarrow>
        (((ymd2ord y m d * 24 + hh) * 60 + mm) * 60 + ss) * 1000000 + us)"

text \<open>\<^verbatim>\<open>a - b\<close> on datetimes, and \<^verbatim>\<open>timedelta(hours=h)\<close>.\<close>

definition dt_diff :: "datetime \<Rightarrow> datetime \<Rightarrow> int" where
  "dt_diff a b = micros a - micros b"

definition timedelta_hours :: "int \<Rightarrow> int" where
  "timedelta_hours h = h * 3600 * 1000000"

text \<open>\<^verbatim>\<open>str(n).zfill(w)\<close> for a non-negative field, and \<^verbatim>\<open>strftime("%Y%m%d_%H%M%S")\<close>.\<close>

definition zfill :: "nat \<Rightarrow> string \<Rightarrow> string" where
  "zfill w s = replicate (w - length s) CHR ''0'' @ s"

definition strftime :: "datetime \<Rightarrow> string" where
  "strftime t =
     (case t of (y, m, d, hh, mm, ss, us) \<Rightarrow>
        zfill 4 (py_str y) @ zfill 2 (py_str m) @ zfill 2 (py_str d) @ ''_'' @
        zfill 2 (py_str hh) @ zfill 2 (py_str mm) @ zfill 2 (py_str ss))"

section \<open>The package: configuration and sessions\<close>

definition SESSION_TIMEOUT_HOURS :: int where
  "SESSION_TIMEOUT_HOURS = 4"

definition DEFAULT_WIDTH :: int where
  "DEFAULT_WIDTH = 1024"

definition DEFAULT_HEIGHT :: int where
  "DEFAULT_HEIGHT = 1024"

definition DEFAULT_MODEL :: string where
  "DEFAULT_MODEL = ''schnell''"

definition AVAILABLE_MODELS :: "string list" where
  "AVAILABLE_MODELS = [''schnell'', ''dev'']"

text \<open>\<^verbatim>\<open>config.get_default_steps\<close>: the table \<^verbatim>\<open>DEFAULT_STEPS\<close> with the fallback 1.\<close>

definition config_default_steps :: "string \<Rightarrow> int" where
  "config_default_steps m = (case map_of [(''schnell'', 1), (''dev'', 5)] m of Some n \<Rightarrow> n | None \<Rightarrow> 1)"

text \<open>
  One session directory holds the counter file \<^verbatim>\<open>run_counter.txt\<close> (absent, or its text),
  and its run directories, each with the \<^verbatim>\<open>run_info.json\<close> last written into it. The base
  directory \<^verbatim>\<open>config.OUTPUT_BASE_DIR\<close> is absent (\<open>None\<close>) or lists its entries by name, in
  the order in which the file system enumerates them.
\<close>

datatype status = In_progress | Completed

record file_info =
  file_name :: string
  fi_seed :: int
  fi_steps :: int

record pkg_run_info =
  total_iterations :: int
  completed_iterations :: int
  run_status :: status
  step_variations :: "int list option"
  generated_files :: "file_info list"

record session_dir =
  counter_file :: "string option"
  run_dirs :: "(string \<times> pkg_run_info option) list"

type_synonym base_dir = "(string \<times> session_dir) list option"

text \<open>The timestamp parsed from a directory name inside the \<^verbatim>\<open>try\<close> of \<^verbatim>\<open>_find_valid_session\<close>.\<close>

definition parse_dir_timestamp :: "string \<Rightarrow> error + datetime" where
  "parse_dir_timestamp name =
     (let dir_timestamp = slice_from name (length ''mflux_output_'') in
      case py_int (slice dir_timestamp 0 4) of Inl e \<Rightarrow> Inl e | Inr year \<Rightarrow>
      case py_int (slice dir_timestamp 4 6) of Inl e \<Rightarrow> Inl e | Inr month \<Rightarrow>
      case py_int (slice dir_timestamp 6 8) of Inl e \<Rightarrow> Inl e | Inr day \<Rightarrow>
      case py_int (slice dir_timestamp 9 11) of Inl e \<Rightarrow> Inl e | Inr hour \<Rightarrow>
      case py_int (slice dir_timestamp 11 13) of Inl e \<Rightarrow> Inl e | Inr minute \<Rightarrow>
      case py_int (slice_from dir_timestamp 13) of Inl e \<Rightarrow> Inl e | Inr second \<Rightarrow>
        mk_datetime year month day hour minute second)"

text \<open>
  The loop of \<^verbatim>\<open>_find_valid_session\<close> over \<^verbatim>\<open>glob("mflux_output_*")\<close>: a name that does not
  parse is skipped, a name within the timeout is appended with its timestamp.
\<close>

fun valid_sessions :: "datetime \<Rightarrow> string list \<Rightarrow> (datetime \<times> string) list" where
  "valid_sessions current_time [] = []"
| "valid_sessions current_time (d # ds) =
     (if startswith d ''mflux_output_'' then
        (case parse_dir_timestamp d of
           Inl e \<Rightarrow> valid_sessions current_time ds
         | Inr timestamp \<Rightarrow>
             if \<bar>dt_diff current_time timestamp\<bar> < timedelta_hours SESSION_TIMEOUT_HOURS
             then (timestamp, d) # valid_sessions current_time ds
             else valid_sessions current_time ds)
      else valid_sessions current_time ds)"

text \<open>\<^verbatim>\<open>sorted(xs, reverse=True)\<close>: a stable sort in descending order.\<close>

definition sorted_reverse :: "('a::linorder) list \<Rightarrow> 'a list" where
  "sorted_reverse xs = rev (sort (rev xs))"

definition find_valid_session :: "datetime \<Rightarrow> base_dir \<Rightarrow> string option" where
  "find_valid_session current_time base =
     (case base of
        None \<Rightarrow> None
      | Some entries \<Rightarrow>
          (case sorted_reverse (valid_sessions current_time (map fst entries)) of
             [] \<Rightarrow> None
           | s # _ \<Rightarrow> Some (snd s)))"

text \<open>\<^verbatim>\<open>mkdir(parents=True, exist_ok=True)\<close> of a session directory inside the base directory.\<close>

definition mkdir_session :: "base_dir \<Rightarrow> string \<Rightarrow> base_dir" where
  "mkdir_session base name =
     (let entries = (case base of None \<Rightarrow> [] | Some es \<Rightarrow> es) in
      if name \<in> set (map fst entries) then Some entries
      else Some (entries @ [(name, \<lparr> counter_file = None, run_dirs = [] \<rparr>)]))"

definition get_or_create_session_dir :: "datetime \<Rightarrow> base_dir \<Rightarrow> bool \<Rightarrow> base_dir \<times> string" where
  "get_or_create_session_dir current_time base force_new =
     (case (if force_new then None else find_valid_session current_time base) of
        Some existing \<Rightarrow> (base, existing)
      | None \<Rightarrow>
          let session_dir = ''mflux_output_'' @ strftime current_time
          in (mkdir_session base session_dir, session_dir))"

text \<open>The content of a session directory; a name that is not there reads as an empty one.\<close>

definition session_at :: "base_dir \<Rightarrow> string \<Rightarrow> session_dir" where
  "session_at base name =
     (case map_of (case base of None \<Rightarrow> [] | Some es \<Rightarrow> es) name of
        Some d \<Rightarrow> d
      | None \<Rightarrow> \<lparr> counter_file = None, run_dirs = [] \<rparr>)"

definition update_session :: "base_dir \<Rightarrow> string \<Rightarrow> session_dir \<Rightarrow> base_dir" where
  "update_session base name d =
     Some (dict_set (case base of None \<Rightarrow> [] | Some es \<Rightarrow> es) name d)"

text \<open>\<^verbatim>\<open>_load_run_counter\<close>: the text of the counter file goes through \<^verbatim>\<open>int\<close> with no handler.\<close>

definition load_run_counter :: "session_dir \<Rightarrow> error + int" where
  "load_run_counter d =
     (case counter_file d of
        Some text \<Rightarrow> py_int (strip text)
      | None \<Rightarrow> Inr 0)"

text \<open>The \<^verbatim>\<open>Session\<close> object: the name of its directory and the counter it holds in memory.\<close>

record session =
  current_session_dir :: string
  run_counter :: int

definition Session :: "datetime \<Rightarrow> base_dir \<Rightarrow> bool \<Rightarrow> base_dir \<times> (error + session)" where
  "Session current_time base force_new =
     (case get_or_create_session_dir current_time base force_new of
        (base1, dir) \<Rightarrow>
          (case load_run_counter (session_at base1 dir) of
             Inl e \<Rightarrow> (base1, Inl e)
           | Inr c \<Rightarrow> (base1, Inr \<lparr> current_session_dir = dir, run_counter = c \<rparr>)))"

text \<open>
  \<^verbatim>\<open>get_next_run_dir\<close>: increment the counter in memory, make the run directory (an existing
  one is kept), write the counter file. It returns the name of the run directory.
\<close>

definition get_next_run_dir :: "base_dir \<Rightarrow> session \<Rightarrow> base_dir \<times> session \<times> string" where
  "get_next_run_dir base s =
     (let s1 = s\<lparr>run_counter := run_counter s + 1\<rparr>;
          run_dir = ''run_'' @ py_str (run_counter s1);
          d = session_at base (current_session_dir s);
          d1 = (if run_dir \<in> set (map fst (run_dirs d)) then d
                else d\<lparr>run_dirs := run_dirs d @ [(run_dir, None)]\<rparr>);
          d2 = d1\<lparr>counter_file := Some (py_str (run_counter s1))\<rparr>
      in (update_session base (current_session_dir s) d2, s1, run_dir))"

text \<open>Arguments used to run the definitions on concrete inputs.\<close>

definition ex_args :: args where
  "ex_args = default_args\<lparr>prompt := Some ''a cat'', seed := Some 42\<rparr>"

text \<open>Decimal digit characters, and the value of a string of them read from the left.\<close>

definition is_digit :: "char \<Rightarrow> bool" where
  "is_digit c = (48 \<le> (of_char c :: nat) \<and> (of_char c :: nat) \<le> 57)"

definition digits_fold :: "nat \<Rightarrow> string \<Rightarrow> nat" where
  "digits_fold acc ds = foldl (\<lambda>a c. a * 10 + the (digit_val c)) acc ds"

text \<open>
  A sequence of calls of \<^verbatim>\<open>get_next_run_dir\<close> against one session directory. A \<open>True\<close>
  in the list is a call made through a new \<^verbatim>\<open>Session\<close> object, which reads the counter
  file again (a new invocation of the program); a \<open>False\<close> is a further call on the same
  object.
\<close>

definition reopen :: "base_dir \<Rightarrow> session \<Rightarrow> error + session" where
  "reopen base s =
     (case load_run_counter (session_at base (current_session_dir s)) of
        Inl e \<Rightarrow> Inl e
      | Inr c \<Rightarrow> Inr (s\<lparr>run_counter := c\<rparr>))"

fun allocate_runs :: "bool list \<Rightarrow> base_dir \<Rightarrow> session \<Rightarrow> error + (base_dir \<times> session \<times> string list)" where
  "allocate_runs [] base s = Inr (base, s, [])"
| "allocate_runs (fresh # calls) base s =
     (case (if fresh then reopen base s else Inr s) of
        Inl e \<Rightarrow> Inl e
      | Inr s0 \<Rightarrow>
          (case get_next_run_dir base s0 of
             (base1, s1, r) \<Rightarrow>
               (case allocate_runs calls base1 s1 of
                  Inl e \<Rightarrow> Inl e
                | Inr (base2, s2, rs) \<Rightarrow> Inr (base2, s2, r # rs))))"

definition run_name :: "int \<Rightarrow> string" where
  "run_name k = ''run_'' @ py_str k"

text \<open>The state after \<open>k\<close> allocations in a session directory that started empty.\<close>

definition allocated :: "base_dir \<Rightarrow> session \<Rightarrow> string \<Rightarrow> nat \<Rightarrow> bool" where
  "allocated base s dir k =
     (current_session_dir s = dir \<and> run_counter s = int k \<and>
      load_run_counter (session_at base dir) = Inr (int k) \<and>
      map fst (run_dirs (session_at base dir)) = map (\<lambda>i. run_name (int i)) [1 ..< Suc k])"

definition empty_session :: session_dir where
  "empty_session = \<lparr> counter_file = None, run_dirs = [] \<rparr>"


section \<open>The wrapper script: sessions, last settings and run directories\<close>

text \<open>
  A directory of the wrapper lists its entries by name; for a run directory the entry
  holds its \<^verbatim>\<open>run_info.json\<close>: missing, unreadable, or the record read from it. The working
  directory maps the names of the directories in it to their listings.
\<close>

datatype info_file = NoInfoFile | Unreadable | Info run_info

type_synonym wdir = "(string \<times> info_file) list"

type_synonym cwd = "(string \<times> wdir) list"

record last_settings =
  ls_prompt :: string
  ls_resolution :: "string option"
  ls_style :: "string option"
  ls_variations :: int

text \<open>The sort key \<^verbatim>\<open>int(x.split("_")[1])\<close> of a run directory.\<close>

definition run_number :: "string \<Rightarrow> error + int" where
  "run_number x = (case index_at (split CHR ''_'' x) 1 of Inl e \<Rightarrow> Inl e | Inr p \<Rightarrow> py_int p)"

text \<open>
  The body of the \<^verbatim>\<open>try\<close> in \<^verbatim>\<open>get_last_settings\<close>: \<open>None\<close> when it raises (a prompt that is
  \<^verbatim>\<open>null\<close> makes \<^verbatim>\<open>"," in prompt\<close> raise), which the bare \<^verbatim>\<open>except\<close> turns into \<^verbatim>\<open>continue\<close>. The
  style of the previous run is recovered by comparing the text after the first comma of
  the recorded prompt with the descriptions now in the style file.
\<close>

definition extract_settings :: "styles_file \<Rightarrow> run_info \<Rightarrow> last_settings option" where
  "extract_settings f info =
     (case ri_prompt info of
        None \<Rightarrow> None
      | Some p \<Rightarrow>
          let styles = load_styles f;
              base_prompt = strip (hd (split CHR '','' p));
              style_part = strip (last (split_max CHR '','' 1 p));
              found = (if CHR '','' \<in> set p \<and> style_part \<in> set (map snd styles)
                       then find (\<lambda>nd. snd nd = style_part) styles else None)
          in Some \<lparr> ls_prompt = (case found of Some nd \<Rightarrow> base_prompt | None \<Rightarrow> p),
                    ls_resolution = ri_resolution info,
                    ls_style = (case found of Some nd \<Rightarrow> Some (fst nd) | None \<Rightarrow> None),
                    ls_variations = ri_variations info \<rparr>)"

fun first_settings :: "styles_file \<Rightarrow> wdir \<Rightarrow> string list \<Rightarrow> last_settings option" where
  "first_settings f dir [] = None"
| "first_settings f dir (run # runs) =
     (case map_of dir run of
        Some (Info info) \<Rightarrow>
          (case extract_settings f info of
             Some ls \<Rightarrow> Some ls
           | None \<Rightarrow> first_settings f dir runs)
      | _ \<Rightarrow> first_settings f dir runs)"

text \<open>
  \<^verbatim>\<open>get_last_settings\<close>: the run directories sorted by number, greatest first (a stable
  sort on the keys computed beforehand; a key that is no integer raises), then the
  settings of the first one whose record can be read.
\<close>

definition get_last_settings :: "styles_file \<Rightarrow> wdir \<Rightarrow> error + last_settings option" where
  "get_last_settings f dir =
     (let names = filter (\<lambda>d. startswith d ''run_'') (map fst dir) in
      case map_result run_number names of
        Inl e \<Rightarrow> Inl e
      | Inr keys \<Rightarrow>
          Inr (first_settings f dir (rev (map snd (sort_key fst (rev (zip keys names)))))))"

text \<open>How an f-string renders \<open>style_desc\<close> when the attribute holds \<^verbatim>\<open>None\<close>.\<close>

definition fmt_opt :: "string option \<Rightarrow> string" where
  "fmt_opt s = (case s of None \<Rightarrow> ''None'' | Some t \<Rightarrow> t)"

text \<open>
  Lines 225 to 243 of \<^verbatim>\<open>create_output_directories\<close> (the same statements stand at lines
  258 to 274): the prompt, the resolution and the variation count taken from the last run.
\<close>

definition inherit_prompt :: "styles_file \<Rightarrow> last_settings \<Rightarrow> args \<Rightarrow> args" where
  "inherit_prompt f ls a =
     (case style_desc a of
        Some sd \<Rightarrow> a\<lparr>prompt := Some (ls_prompt ls @ '', '' @ fmt_opt sd)\<rparr>
      | None \<Rightarrow>
          if truthy (ls_style ls) \<and> \<not> truthy (style a) then
            (if truthy (get_style f (the (ls_style ls)))
             then a\<lparr>prompt := Some (ls_prompt ls @ '', '' @ the (get_style f (the (ls_style ls))))\<rparr>
             else a\<lparr>prompt := Some (ls_prompt ls)\<rparr>)
          else a\<lparr>prompt := Some (ls_prompt ls)\<rparr>)"

definition inherit_resolution :: "last_settings \<Rightarrow> args \<Rightarrow> args" where
  "inherit_resolution ls a =
     (if \<not> any_format_flag a \<and> resolution a = Some ''1024x1024''
      then a\<lparr>resolution := ls_resolution ls\<rparr> else a)"

definition inherit_variations :: "last_settings \<Rightarrow> args \<Rightarrow> args" where
  "inherit_variations ls a =
     (if variations a = 4 \<and> iterate_steps a = None
      then a\<lparr>variations := ls_variations ls\<rparr> else a)"

definition apply_last_settings :: "styles_file \<Rightarrow> last_settings \<Rightarrow> args \<Rightarrow> args" where
  "apply_last_settings f ls a =
     inherit_variations ls
       (inherit_resolution ls (if prompt a = None then inherit_prompt f ls a else a))"

text \<open>
  The scan for a recent session directory (lines 209 to 216). \<^verbatim>\<open>datetime.strptime\<close> with the
  format \<^verbatim>\<open>%Y%m%d_%H%M%S\<close> is a parameter; only its \<^verbatim>\<open>ValueError\<close> is caught.
\<close>

fun recent_dirs ::
  "(string \<Rightarrow> error + datetime) \<Rightarrow> datetime \<Rightarrow> string list \<Rightarrow> error + (datetime \<times> string) list" where
  "recent_dirs strptime now [] = Inr []"
| "recent_dirs strptime now (d # ds) =
     (if startswith d ''mflux_output_'' then
        (case index_at (split_max CHR ''_'' 2 d) 2 of
           Inl e \<Rightarrow> Inl e
         | Inr stamp \<Rightarrow>
             (case strptime stamp of
                Inl e \<Rightarrow> if e = ValueError then recent_dirs strptime now ds else Inl e
              | Inr dir_time \<Rightarrow>
                  if dt_diff now dir_time < 3600 * 1000000 then
                    (case recent_dirs strptime now ds of
                       Inl e \<Rightarrow> Inl e
                     | Inr rest \<Rightarrow> Inr ((dir_time, d) # rest))
                  else recent_dirs strptime now ds))
      else recent_dirs strptime now ds)"

text \<open>Lines 281 to 287: the number of the next run directory.\<close>

definition next_run :: "wdir \<Rightarrow> error + int" where
  "next_run dir =
     (let existing_runs = filter (\<lambda>d. startswith d ''run_'') (map fst dir) in
      if existing_runs \<noteq> [] then
        (case map_result run_number existing_runs of
           Inl e \<Rightarrow> Inl e
         | Inr run_numbers \<Rightarrow> Inr (Max (set run_numbers) + 1))
      else Inr 1)"

text \<open>
  Lines 278 to 319: make the base and run directories, write the initial record and note
  the HTML index of the base directory (the rendering of the pages is left out). The
  result names the base and the run directory.
\<close>

definition make_run_dir :: "cwd \<Rightarrow> string \<Rightarrow> args \<Rightarrow> error + (cwd \<times> args \<times> string \<times> string)" where
  "make_run_dir w base a =
     (let dir = (case map_of w base of Some d \<Rightarrow> d | None \<Rightarrow> []) in
      case next_run dir of
        Inl e \<Rightarrow> Inl e
      | Inr n \<Rightarrow>
          let run = ''run_'' @ py_str n;
              dir1 = dict_set dir run (Info (initial_info a));
              dir2 = (if ''index.html'' \<in> set (map fst dir1) then dir1
                      else dir1 @ [(''index.html'', NoInfoFile)])
          in Inr (dict_set w base dir2, a, base, path_join base run))"

definition create_output_directories ::
  "(string \<Rightarrow> error + datetime) \<Rightarrow> datetime \<Rightarrow> styles_file \<Rightarrow> cwd \<Rightarrow> args
    \<Rightarrow> error + (cwd \<times> args \<times> string \<times> string)" where
  "create_output_directories strptime now f w a =
     (if \<not> truthy (output_dir a) then
        (case (if new a then Inr [] else recent_dirs strptime now (map fst w)) of
           Inl e \<Rightarrow> Inl e
         | Inr [] \<Rightarrow>
             if prompt a = None then Inl ValueError
             else make_run_dir w (''mflux_output_'' @ strftime now) a
         | Inr (r # rs) \<Rightarrow>
             (let base = snd (hd (sorted_reverse (r # rs))) in
              case get_last_settings f (case map_of w base of Some d \<Rightarrow> d | None \<Rightarrow> []) of
                Inl e \<Rightarrow> Inl e
              | Inr None \<Rightarrow> make_run_dir w base a
              | Inr (Some ls) \<Rightarrow>
                  if prompt (apply_last_settings f ls a) = None then Inl ValueError
                  else make_run_dir w base (apply_last_settings f ls a)))
      else
        (let base = the (output_dir a) in
         if prompt a = None then
           (case map_of w base of
              None \<Rightarrow> Inl FileNotFoundError
            | Some dir \<Rightarrow>
                (case get_last_settings f dir of
                   Inl e \<Rightarrow> Inl e
                 | Inr None \<Rightarrow> Inl ValueError
                 | Inr (Some ls) \<Rightarrow> make_run_dir w base (apply_last_settings f ls a)))
         else make_run_dir w base a))"

definition ex_last :: last_settings where
  "ex_last = \<lparr> ls_prompt = ''a cat'', ls_resolution = Some ''512x512'', ls_style = None,
               ls_variations = 4 \<rparr>"

text \<open>The style file before and after the style \<^verbatim>\<open>ghibli\<close> is edited.\<close>

definition styles_before :: styles_file where
  "styles_before = Styles [(''ghibli'', ''painterly, soft'')]"

definition styles_after :: styles_file where
  "styles_after = Styles [(''ghibli'', ''painterly, soft, muted'')]"

text \<open>The record of a previous run made with \<^verbatim>\<open>--prompt "a cat" --style ghibli\<close>.\<close>

definition ghibli_run :: run_info where
  "ghibli_run =
     (case snd (parse_args styles_before
                  (default_args\<lparr>prompt := Some ''a cat'', style := Some ''ghibli''\<rparr>)) of
        Inr a \<Rightarrow> initial_info a
      | Inl e \<Rightarrow> initial_info default_args)"

text \<open>The namespace of \<^verbatim>\<open>--prompt "a cat" --iterate 1,3,5,9 --seed 42\<close>.\<close>

definition iterate_cmdline :: args where
  "iterate_cmdline = default_args\<lparr>prompt := Some ''a cat'', iterate := Some ''1,3,5,9'', seed := Some 42\<rparr>"

section \<open>The package: generator, styles and the command line\<close>

record generator =
  g_model :: string
  g_width :: int
  g_height :: int
  g_steps :: int

text \<open>\<^verbatim>\<open>Generator(session, model)\<close>: the defaults of the configuration, then \<^verbatim>\<open>validate_model\<close>.\<close>

definition Generator :: "string \<Rightarrow> error + generator" where
  "Generator m =
     (if m \<in> set AVAILABLE_MODELS
      then Inr \<lparr> g_model = m, g_width = DEFAULT_WIDTH, g_height = DEFAULT_HEIGHT,
                 g_steps = config_default_steps m \<rparr>
      else Inl ValueError)"

text \<open>
  What a run of the package works on: the base directory, the session object, and the
  commands handed to \<^verbatim>\<open>subprocess.run\<close> so far.
\<close>

record pkg_state =
  ps_base :: base_dir
  ps_session :: session
  ps_spawned :: "string list list"

text \<open>\<^verbatim>\<open>_update_run_info\<close>: the record replaces \<^verbatim>\<open>run_info.json\<close> of the run directory.\<close>

definition update_run_info :: "base_dir \<Rightarrow> string \<Rightarrow> string \<Rightarrow> pkg_run_info \<Rightarrow> base_dir" where
  "update_run_info base sdir run info =
     (let d = session_at base sdir
      in update_session base sdir (d\<lparr>run_dirs := dict_set (run_dirs d) run (Some info)\<rparr>))"

definition read_run_info :: "base_dir \<Rightarrow> string \<Rightarrow> string \<Rightarrow> pkg_run_info option" where
  "read_run_info base sdir run =
     (case map_of (run_dirs (session_at base sdir)) run of Some (Some info) \<Rightarrow> Some info | _ \<Rightarrow> None)"

definition pkg_cmd :: "generator \<Rightarrow> string \<Rightarrow> int \<Rightarrow> int \<Rightarrow> string \<Rightarrow> string list" where
  "pkg_cmd g p stp sd output_path =
     [''mflux-generate'', ''--prompt'', p, ''-m'', g_model g,
      ''--width'', py_str (g_width g), ''--height'', py_str (g_height g),
      ''--steps'', py_str stp, ''--seed'', py_str sd, ''--output'', output_path, ''--metadata'']"

text \<open>
  The body shared by the three loops of \<^verbatim>\<open>generate\<close> and \<^verbatim>\<open>generate_variations\<close>, for the
  loop index \<open>i\<close> with its seed, step count and file name. \<^verbatim>\<open>subprocess.run(cmd, check=True)\<close>
  raises \<^verbatim>\<open>CalledProcessError\<close> on a non-zero exit code \<open>ext i\<close>; nothing catches it, so the
  record in memory and on disk stays as it was. Otherwise the file is recorded and the
  record written.
\<close>

definition generate_one ::
  "(nat \<Rightarrow> int) \<Rightarrow> generator \<Rightarrow> string \<Rightarrow> string \<Rightarrow> string \<Rightarrow> (nat \<times> int \<times> int \<times> string)
    \<Rightarrow> pkg_state \<times> pkg_run_info \<Rightarrow> (pkg_state \<times> pkg_run_info) \<times> error option" where
  "generate_one ext g p sdir run item st =
     (case item of (i, sd, stp, name) \<Rightarrow>
      case st of (ps, run_info) \<Rightarrow>
        let output_path = path_join (path_join sdir run) name;
            ps1 = ps\<lparr>ps_spawned := ps_spawned ps @ [pkg_cmd g p stp sd output_path]\<rparr>
        in if ext i \<noteq> 0 then ((ps1, run_info), Some (CalledProcessError (ext i)))
           else
             let run_info1 = run_info\<lparr>completed_iterations := int i + 1,
                    generated_files := generated_files run_info @
                      [\<lparr> file_name = name, fi_seed = sd, fi_steps = stp \<rparr>]\<rparr>
             in ((ps1\<lparr>ps_base := update_run_info (ps_base ps1) sdir run run_info1\<rparr>, run_info1),
                 None))"

fun generation_loop ::
  "(nat \<Rightarrow> int) \<Rightarrow> generator \<Rightarrow> string \<Rightarrow> string \<Rightarrow> string \<Rightarrow> (nat \<times> int \<times> int \<times> string) list
    \<Rightarrow> pkg_state \<times> pkg_run_info \<Rightarrow> (pkg_state \<times> pkg_run_info) \<times> error option" where
  "generation_loop ext g p sdir run [] st = (st, None)"
| "generation_loop ext g p sdir run (item # items) st =
     (case generate_one ext g p sdir run item st of
        (st1, Some e) \<Rightarrow> (st1, Some e)
      | (st1, None) \<Rightarrow> generation_loop ext g p sdir run items st1)"

text \<open>
  The statements after a loop: the status becomes \<^verbatim>\<open>completed\<close> in memory, the average of the
  generation times divides by their number (\<^verbatim>\<open>ZeroDivisionError\<close> when there is none), and
  only then is the record written.
\<close>

definition finish_run :: "string \<Rightarrow> string \<Rightarrow> pkg_state \<times> pkg_run_info \<Rightarrow> pkg_state \<times> error option" where
  "finish_run sdir run st =
     (case st of (ps, run_info) \<Rightarrow>
        if generated_files run_info = [] then (ps, Some ZeroDivisionError)
        else (ps\<lparr>ps_base := update_run_info (ps_base ps) sdir run
                                (run_info\<lparr>run_status := Completed\<rparr>)\<rparr>, None))"

text \<open>
  A run from \<^verbatim>\<open>get_next_run_dir\<close> to the final record, over the items of its loop. It
  returns the state it leaves behind together with the run directory or the exception.
\<close>

definition run_items ::
  "(nat \<Rightarrow> int) \<Rightarrow> generator \<Rightarrow> string \<Rightarrow> int \<Rightarrow> int list option
    \<Rightarrow> (nat \<times> int \<times> int \<times> string) list \<Rightarrow> pkg_state \<Rightarrow> pkg_state \<times> (error + string)" where
  "run_items ext g p total_n variation_steps items ps =
     (case get_next_run_dir (ps_base ps) (ps_session ps) of
        (base1, s1, run) \<Rightarrow>
          let sdir = current_session_dir s1;
              run_info = \<lparr> total_iterations = total_n, completed_iterations = 0,
                           run_status = In_progress, step_variations = variation_steps,
                           generated_files = [] \<rparr>;
              ps1 = ps\<lparr>ps_base := update_run_info base1 sdir run run_info, ps_session := s1\<rparr>
          in case generation_loop ext g p sdir run items (ps1, run_info) of
               ((ps2, info2), Some e) \<Rightarrow> (ps2, Inl e)
             | ((ps2, info2), None) \<Rightarrow>
                 (case finish_run sdir run (ps2, info2) of
                    (ps3, Some e) \<Rightarrow> (ps3, Inl e)
                  | (ps3, None) \<Rightarrow> (ps3, Inr (path_join sdir run))))"

text \<open>
  \<^verbatim>\<open>Generator.generate(prompt, iterations, seed)\<close>: every iteration uses the given seed, or a
  random one from 1 to 100000 when there is none; the file is named after the seed.
\<close>

definition generate_items :: "(nat \<Rightarrow> nat) \<Rightarrow> generator \<Rightarrow> int \<Rightarrow> int option \<Rightarrow> (nat \<times> int \<times> int \<times> string) list" where
  "generate_items rnd g iterations sd =
     map (\<lambda>i. let current_seed = (case sd of Some s \<Rightarrow> s | None \<Rightarrow> randint 1 100000 (rnd i))
               in (i, current_seed, g_steps g, ''image_'' @ py_str current_seed @ ''.png''))
         [0 ..< nat iterations]"

definition generate ::
  "(nat \<Rightarrow> int) \<Rightarrow> (nat \<Rightarrow> nat) \<Rightarrow> generator \<Rightarrow> string \<Rightarrow> int \<Rightarrow> int option \<Rightarrow> pkg_state
    \<Rightarrow> pkg_state \<times> (error + string)" where
  "generate ext rnd g p iterations sd ps =
     run_items ext g p iterations None (generate_items rnd g iterations sd) ps"

text \<open>
  \<^verbatim>\<open>Generator.generate_variations\<close>: step variations when both a step list and a base seed
  are truthy (a seed of 0 is not), else seed variations when \<^verbatim>\<open>iterations\<close> is truthy, else
  nothing. It returns the list of run directories it made.
\<close>

definition step_items :: "int \<Rightarrow> int list \<Rightarrow> (nat \<times> int \<times> int \<times> string) list" where
  "step_items base_seed vary_steps =
     map (\<lambda>(i, step_count).
            (i, base_seed, step_count,
             ''image_'' @ py_str base_seed @ ''_steps_'' @ py_str step_count @ ''.png''))
         (zip [0 ..< length vary_steps] vary_steps)"

definition seed_items :: "(nat \<Rightarrow> nat) \<Rightarrow> generator \<Rightarrow> int \<Rightarrow> (nat \<times> int \<times> int \<times> string) list" where
  "seed_items rnd g iterations =
     map (\<lambda>i. let current_seed = randint 1 100000 (rnd i)
               in (i, current_seed, g_steps g, ''image_'' @ py_str current_seed @ ''.png''))
         [0 ..< nat iterations]"

definition generate_variations ::
  "(nat \<Rightarrow> int) \<Rightarrow> (nat \<Rightarrow> nat) \<Rightarrow> generator \<Rightarrow> string \<Rightarrow> int option \<Rightarrow> int option
    \<Rightarrow> int list option \<Rightarrow> pkg_state \<Rightarrow> pkg_state \<times> (error + string list)" where
  "generate_variations ext rnd g p iterations base_seed vary_steps ps =
     (if vary_steps \<noteq> None \<and> vary_steps \<noteq> Some [] \<and> base_seed \<noteq> None \<and> base_seed \<noteq> Some 0 then
        (case run_items ext g p (int (length (the vary_steps))) vary_steps
                (step_items (the base_seed) (the vary_steps)) ps of
           (ps1, Inl e) \<Rightarrow> (ps1, Inl e)
         | (ps1, Inr run_dir) \<Rightarrow> (ps1, Inr [run_dir]))
      else if iterations \<noteq> None \<and> iterations \<noteq> Some 0 then
        (case run_items ext g p (the iterations) None (seed_items rnd g (the iterations)) ps of
           (ps1, Inl e) \<Rightarrow> (ps1, Inl e)
         | (ps1, Inr run_dir) \<Rightarrow> (ps1, Inr [run_dir]))
      else (ps, Inr []))"

text \<open>
  The style directory of the package: the \<^verbatim>\<open>.json\<close> files by name, each unreadable as JSON
  or an object with string values.
\<close>

datatype style_json = BadStyleJson | StyleJson "(string \<times> string) list"

type_synonym styles_dir = "(string \<times> style_json) list"

definition pkg_get_style :: "styles_dir \<Rightarrow> string \<Rightarrow> error + string option" where
  "pkg_get_style sd name =
     (case map_of sd (name @ ''.json'') of
        None \<Rightarrow> Inr None
      | Some BadStyleJson \<Rightarrow> Inl JSONDecodeError
      | Some (StyleJson obj) \<Rightarrow> Inr (map_of obj ''description''))"

text \<open>\<^verbatim>\<open>StyleManager.list_styles\<close>: a file that is no JSON or lacks a key is skipped.\<close>

fun style_entries :: "styles_dir \<Rightarrow> (string \<times> string) list" where
  "style_entries [] = []"
| "style_entries ((file, content) # rest) =
     (case content of
        BadStyleJson \<Rightarrow> style_entries rest
      | StyleJson obj \<Rightarrow>
          (case (map_of obj ''name'', map_of obj ''description'') of
             (Some n, Some d) \<Rightarrow> (n, d) # style_entries rest
           | _ \<Rightarrow> style_entries rest))"

definition pkg_list_styles :: "styles_dir \<Rightarrow> (string \<times> string) list" where
  "pkg_list_styles sd = sort_key fst (style_entries sd)"

text \<open>\<^verbatim>\<open>config.get_resolution\<close>: the preset of a format name, the default for an unknown name.\<close>

definition get_resolution :: "string \<Rightarrow> int \<times> int" where
  "get_resolution format_name =
     (case map_of
        [(''default'', (1024, 1024)), (''landscape'', (1024, 576)), (''portrait'', (768, 1024)),
         (''landscape_sm'', (512, 288)), (''portrait_sm'', (384, 512)), (''square_sm'', (512, 512)),
         (''landscape_lg'', (1536, 864)), (''portrait_lg'', (1152, 1536)),
         (''square_lg'', (1536, 1536)), (''landscape_xl'', (2048, 1152)),
         (''portrait_xl'', (1536, 2048)), (''square_xl'', (2048, 2048))] format_name of
        Some r \<Rightarrow> r
      | None \<Rightarrow> (1024, 1024))"

text \<open>The options of the command \<^verbatim>\<open>generate\<close> of the package.\<close>

record cli =
  cli_prompt :: string
  cli_vary_seed :: "int option"
  cli_seed :: "int option"
  cli_vary_steps :: "string option"
  cli_force_new_session :: bool
  cli_format :: "string option"
  cli_style :: "string option"

text \<open>
  The body of the \<^verbatim>\<open>try\<close> of \<^verbatim>\<open>generate\<close> in \<^verbatim>\<open>cli/main.py\<close>, in the order of its statements:
  the session is made first, then the generator, the format and the style, and only then
  is \<^verbatim>\<open>--vary-steps\<close> checked against \<^verbatim>\<open>--seed\<close> (\<^verbatim>\<open>if not seed\<close>: no seed, or the seed 0).
\<close>

definition cli_generate_body ::
  "(nat \<Rightarrow> int) \<Rightarrow> (nat \<Rightarrow> nat) \<Rightarrow> datetime \<Rightarrow> styles_dir \<Rightarrow> base_dir \<Rightarrow> cli
    \<Rightarrow> base_dir \<times> (error + unit)" where
  "cli_generate_body ext rnd now sd base c =
     (case Session now base (cli_force_new_session c) of
        (base1, Inl e) \<Rightarrow> (base1, Inl e)
      | (base1, Inr s) \<Rightarrow>
          (case Generator DEFAULT_MODEL of
             Inl e \<Rightarrow> (base1, Inl e)
           | Inr g0 \<Rightarrow>
               let g = (if truthy (cli_format c)
                        then g0\<lparr>g_width := fst (get_resolution (the (cli_format c))),
                                g_height := snd (get_resolution (the (cli_format c)))\<rparr>
                        else g0)
               in case (if truthy (cli_style c) then pkg_get_style sd (the (cli_style c))
                        else Inr None) of
                    Inl e \<Rightarrow> (base1, Inl e)
                  | Inr desc \<Rightarrow>
                      let p = (if truthy desc then cli_prompt c @ '', '' @ the desc else cli_prompt c);
                          ps = \<lparr> ps_base = base1, ps_session = s, ps_spawned = [] \<rparr>
                      in case (if truthy (cli_vary_steps c) then
                                 (if cli_seed c = None \<or> cli_seed c = Some 0 then Inl UsageError
                                  else
                                    (case map_result (\<lambda>x. py_int (strip x))
                                            (split CHR '','' (the (cli_vary_steps c))) of
                                       Inl e \<Rightarrow> Inl UsageError
                                     | Inr l \<Rightarrow> Inr (Some l)))
                               else Inr None) of
                           Inl e \<Rightarrow> (base1, Inl e)
                         | Inr step_list \<Rightarrow>
                             if step_list \<noteq> None \<and> step_list \<noteq> Some [] then
                               (case generate_variations ext rnd g p None (cli_seed c) step_list ps of
                                  (ps1, Inl e) \<Rightarrow> (ps_base ps1, Inl e)
                                | (ps1, Inr rs) \<Rightarrow>
                                    (ps_base ps1, if rs = [] then Inl IndexError else Inr ()))
                             else if cli_vary_seed c \<noteq> None \<and> cli_vary_seed c \<noteq> Some 0 then
                               (case generate_variations ext rnd g p (cli_vary_seed c) None None ps of
                                  (ps1, Inl e) \<Rightarrow> (ps_base ps1, Inl e)
                                | (ps1, Inr rs) \<Rightarrow>
                                    (ps_base ps1, if rs = [] then Inl IndexError else Inr ()))
                             else
                               (case generate ext rnd g p 1 (cli_seed c) ps of
                                  (ps1, Inl e) \<Rightarrow> (ps_base ps1, Inl e)
                                | (ps1, Inr run_dir) \<Rightarrow> (ps_base ps1, Inr ()))))"

text \<open>
  \<^verbatim>\<open>generate\<close>: \<^verbatim>\<open>except Exception\<close> prints the error and ends the process with the exit
  code 1; the exit code is 0 otherwise. The base directory is returned as it is left.
\<close>

definition cli_generate ::
  "(nat \<Rightarrow> int) \<Rightarrow> (nat \<Rightarrow> nat) \<Rightarrow> datetime \<Rightarrow> styles_dir \<Rightarrow> base_dir \<Rightarrow> cli \<Rightarrow> base_dir \<times> int" where
  "cli_generate ext rnd now sd base c =
     (case cli_generate_body ext rnd now sd base c of
        (base1, Inl e) \<Rightarrow> (base1, 1)
      | (base1, Inr u) \<Rightarrow> (base1, 0))"

definition ex_generator :: generator where
  "ex_generator = \<lparr> g_model = ''schnell'', g_width = 1024, g_height = 1024, g_steps = 1 \<rparr>"

definition ex_pkg_state :: pkg_state where
  "ex_pkg_state =
     \<lparr> ps_base = None,
       ps_session = \<lparr> current_session_dir = ''mflux_output_20250308_170709'', run_counter = 0 \<rparr>,
       ps_spawned = [] \<rparr>"

text \<open>The exit codes of a run whose third invocation fails.\<close>

definition third_fails :: "nat \<Rightarrow> int" where
  "third_fails i = (if i = 2 then 1 else 0)"

text \<open>The command line \<^verbatim>\<open>generate --prompt "a cat" --vary-steps 1,3,5,9\<close>, with no seed.\<close>

definition vary_steps_no_seed :: cli where
  "vary_steps_no_seed =
     \<lparr> cli_prompt = ''a cat'', cli_vary_seed = None, cli_seed = None,
       cli_vary_steps = Some ''1,3,5,9'', cli_force_new_session = False, cli_format = None,
       cli_style = None \<rparr>"

text \<open>The command line \<^verbatim>\<open>generate --prompt "a cat"\<close>.\<close>

definition plain_generate :: cli where
  "plain_generate =
     \<lparr> cli_prompt = ''a cat'', cli_vary_seed = None, cli_seed = None,
       cli_vary_steps = None, cli_force_new_session = False, cli_format = None,
       cli_style = None \<rparr>"

text \<open>A recent session directory whose counter file holds the text \<^verbatim>\<open>abc\<close>.\<close>

definition corrupt_counter_base :: base_dir where
  "corrupt_counter_base =
     Some [(''mflux_output_20250308_170000'', \<lparr> counter_file = Some ''abc'', run_dirs = [] \<rparr>)]"

text \<open>\<open>n\<close> successive runs of the wrapper in one base directory (lines 278 to 319 each time).\<close>

fun make_runs :: "nat \<Rightarrow> cwd \<Rightarrow> string \<Rightarrow> args \<Rightarrow> error + (cwd \<times> string list)" where
  "make_runs 0 w base a = Inr (w, [])"
| "make_runs (Suc n) w base a =
     (case make_run_dir w base a of
        Inl e \<Rightarrow> Inl e
      | Inr (w1, a1, b1, run_dir) \<Rightarrow>
          (case make_runs n w1 base a of
             Inl e \<Rightarrow> Inl e
           | Inr (w2, rs) \<Rightarrow> Inr (w2, run_dir # rs)))"

text \<open>The names of the run directories in a listing of the wrapper.\<close>

definition run_entries :: "wdir \<Rightarrow> string list" where
  "run_entries dir = filter (\<lambda>d. startswith d ''run_'') (map fst dir)"

definition listing :: "cwd \<Rightarrow> string \<Rightarrow> wdir" where
  "listing w base = (case map_of w base of Some d \<Rightarrow> d | None \<Rightarrow> [])"

section \<open>Integers and their decimal text\<close>

lemma is_digit_char_of: "d < 10 \<Longrightarrow> is_digit (char_of (48 + (d::nat)))"
  by (simp add: is_digit_def)

lemma digit_val_char_of: "d < 10 \<Longrightarrow> digit_val (char_of (48 + d)) = Some d"
  by (simp add: digit_val_def Let_def)

lemma is_digit_facts:
  assumes "is_digit c"
  shows "c \<noteq> CHR ''_''" "c \<noteq> CHR ''-''" "c \<noteq> CHR ''+''" "\<not> is_space c" "digit_val c \<noteq> None"
proof -
  show "c \<noteq> CHR ''_''" using assms by (auto simp: is_digit_def)
  show "c \<noteq> CHR ''-''" using assms by (auto simp: is_digit_def)
  show "c \<noteq> CHR ''+''" using assms by (auto simp: is_digit_def)
  show "\<not> is_space c" using assms by (auto simp: is_digit_def is_space_def)
  show "digit_val c \<noteq> None" using assms by (auto simp: is_digit_def digit_val_def Let_def)
qed

lemma digits_val_plain:
  "list_all is_digit ds \<Longrightarrow> digits_val acc ds = Some (digits_fold acc ds)"
proof (induction acc ds rule: digits_val.induct)
  case (1 acc)
  then show ?case by (simp add: digits_fold_def)
next
  case (2 acc c)
  then show ?case using is_digit_facts(5)[of c] by (auto simp: digits_fold_def)
next
  case (3 acc c d ds)
  then show ?case using is_digit_facts(5)[of c] is_digit_facts(1)[of c]
    by (auto simp: digits_fold_def)
qed

lemma nat_digits_chars: "list_all is_digit (nat_digits n)"
proof (induction n rule: nat_digits.induct)
  case (1 n)
  show ?case
  proof (cases "n < 10")
    case True
    then show ?thesis by (subst nat_digits.simps) (simp add: is_digit_char_of)
  next
    case False
    have "n mod 10 < 10" by simp
    then have "is_digit (char_of (48 + n mod 10))" by (rule is_digit_char_of)
    then show ?thesis using 1[OF False] False
      by (subst nat_digits.simps) simp
  qed
qed

lemma nat_digits_nonempty: "nat_digits n \<noteq> []"
  by (subst nat_digits.simps) simp

lemma nat_digits_fold: "digits_fold 0 (nat_digits n) = n"
proof (induction n rule: nat_digits.induct)
  case (1 n)
  show ?case
  proof (cases "n < 10")
    case True
    then show ?thesis
      by (subst nat_digits.simps) (simp add: digits_fold_def digit_val_char_of)
  next
    case False
    have m: "n mod 10 < 10" by simp
    have "digits_fold 0 (nat_digits n) =
          digits_fold 0 (nat_digits (n div 10)) * 10 + the (digit_val (char_of (48 + n mod 10)))"
      using False by (subst nat_digits.simps) (simp add: digits_fold_def)
    also have "\<dots> = (n div 10) * 10 + n mod 10"
      using 1[OF False] digit_val_char_of[OF m] by simp
    finally show ?thesis by simp
  qed
qed

lemma unsigned_val_nat_digits: "unsigned_val (nat_digits n) = Some n"
proof -
  obtain c cs where cs: "nat_digits n = c # cs"
    using nat_digits_nonempty[of n] by (cases "nat_digits n") auto
  have all: "is_digit c" "list_all is_digit cs"
    using nat_digits_chars[of n] unfolding cs by simp_all
  obtain v where v: "digit_val c = Some v" using is_digit_facts(5)[OF all(1)] by auto
  have "digits_val v cs = Some (digits_fold v cs)"
    using all(2) by (rule digits_val_plain)
  moreover have "digits_fold v cs = digits_fold 0 (c # cs)"
    by (simp add: digits_fold_def v)
  ultimately show ?thesis
    using nat_digits_fold[of n] by (simp add: unsigned_val_def cs v)
qed

lemma strip_id: "s \<noteq> [] \<Longrightarrow> \<not> is_space (hd s) \<Longrightarrow> \<not> is_space (last s) \<Longrightarrow> strip s = s"
proof -
  assume a: "s \<noteq> []" "\<not> is_space (hd s)" "\<not> is_space (last s)"
  have 1: "dropWhile is_space s = s" using a(2) by (simp add: dropWhile_eq_self_iff)
  have "hd (rev s) = last s" using a(1) by (simp add: hd_rev)
  then have 2: "dropWhile is_space (rev s) = rev s"
    using a(3) by (simp add: dropWhile_eq_self_iff)
  show ?thesis by (simp add: strip_def 1 2)
qed

lemma nat_digits_ends:
  "is_digit (hd (nat_digits n))" "is_digit (last (nat_digits n))"
proof -
  have ne: "nat_digits n \<noteq> []" by (rule nat_digits_nonempty)
  have a: "\<forall>c \<in> set (nat_digits n). is_digit c"
    using nat_digits_chars[of n] by (simp add: list_all_iff)
  show "is_digit (hd (nat_digits n))" using a ne by simp
  show "is_digit (last (nat_digits n))" using a ne by simp
qed

lemma strip_nat_digits: "strip (nat_digits n) = nat_digits n"
  using nat_digits_nonempty nat_digits_ends is_digit_facts(4) by (intro strip_id) simp_all

lemma py_int_py_str: "py_int (py_str i) = Inr i"
proof (cases "i < 0")
  case True
  let ?ds = "nat_digits (nat (- i))"
  have ne: "?ds \<noteq> []" by (rule nat_digits_nonempty)
  have "\<not> is_space (last ?ds)" using nat_digits_ends(2) is_digit_facts(4) by simp
  then have l: "\<not> is_space (last (CHR ''-'' # ?ds))" using ne by simp
  have h: "\<not> is_space (hd (CHR ''-'' # ?ds))" by (simp add: is_space_def)
  have "strip (CHR ''-'' # ?ds) = CHR ''-'' # ?ds"
    using h l by (intro strip_id) simp_all
  then show ?thesis using True
    by (simp add: py_int_def py_str_def unsigned_val_nat_digits)
next
  case False
  let ?ds = "nat_digits (nat i)"
  obtain c cs where cs: "?ds = c # cs"
    using nat_digits_nonempty[of "nat i"] by (cases ?ds) auto
  have "is_digit c" using nat_digits_ends(1)[of "nat i"] by (simp add: cs)
  then have c: "c \<noteq> CHR ''-''" "c \<noteq> CHR ''+''"
    using is_digit_facts(2,3) by simp_all
  have u: "unsigned_val (c # cs) = Some (nat i)"
    using unsigned_val_nat_digits[of "nat i"] by (simp add: cs)
  have "strip ?ds = c # cs" using strip_nat_digits[of "nat i"] by (simp add: cs)
  then show ?thesis using False c u
    by (simp add: py_int_def py_str_def)
qed

section \<open>Properties of the wrapper's image generation\<close>

lemma randint_range: "lo \<le> hi \<Longrightarrow> lo \<le> randint lo hi r \<and> randint lo hi r \<le> hi"
proof -
  assume h: "lo \<le> hi"
  then have pos: "0 < nat (hi - lo + 1)" by simp
  have "r mod nat (hi - lo + 1) < nat (hi - lo + 1)" using pos by (rule mod_less_divisor)
  then have "int (r mod nat (hi - lo + 1)) < hi - lo + 1" using h by linarith
  then show ?thesis unfolding randint_def by simp
qed

lemma build_cmd_seed: "build_cmd a p cs sd w h out ! 8 = py_str sd"
  by (simp add: build_cmd_def)

lemma gen_step_Inr:
  assumes "gen_step ext rnd a run_dir stp w h i st = Inr st'"
  shows "\<exists>c. spawned st' = spawned st @ [c] \<and> c ! 8 = py_str (variation_seed a rnd i)"
    and "set (results st') \<subseteq> set (results st) \<union>
           {r. index r = int i + 1 \<and> img_seed r = variation_seed a rnd i}"
  using assms
  by (auto simp: gen_step_def Let_def build_cmd_seed split: sum.splits option.splits if_splits)

lemma gen_loop_spawned:
  "gen_loop ext rnd a run_dir stp w h is st = Inr st' \<Longrightarrow>
   map (\<lambda>c. c ! 8) (spawned st') =
     map (\<lambda>c. c ! 8) (spawned st) @ map (\<lambda>i. py_str (variation_seed a rnd i)) is"
proof (induction "is" arbitrary: st)
  case Nil
  then show ?case by simp
next
  case (Cons i "is")
  from Cons.prems obtain st1 where
    s1: "gen_step ext rnd a run_dir stp w h i st = Inr st1" and
    l1: "gen_loop ext rnd a run_dir stp w h is st1 = Inr st'"
    by (auto split: sum.splits)
  from gen_step_Inr(1)[OF s1] obtain c where
    c: "spawned st1 = spawned st @ [c]" "c ! 8 = py_str (variation_seed a rnd i)" by blast
  show ?case using Cons.IH[OF l1] c by simp
qed

lemma gen_loop_results:
  "gen_loop ext rnd a run_dir stp w h is st = Inr st' \<Longrightarrow>
   set (results st') \<subseteq> set (results st) \<union>
     {r. \<exists>i \<in> set is. index r = int i + 1 \<and> img_seed r = variation_seed a rnd i}"
proof (induction "is" arbitrary: st)
  case Nil
  then show ?case by simp
next
  case (Cons i "is")
  from Cons.prems obtain st1 where
    s1: "gen_step ext rnd a run_dir stp w h i st = Inr st1" and
    l1: "gen_loop ext rnd a run_dir stp w h is st1 = Inr st'"
    by (auto split: sum.splits)
  show ?case using Cons.IH[OF l1] gen_step_Inr(2)[OF s1] by auto
qed

lemma gen_step_total:
  "iterate_steps a = None \<Longrightarrow> prompt a = Some p \<Longrightarrow>
   \<exists>st'. gen_step ext rnd a run_dir stp w h i st = Inr st'"
  by (simp add: gen_step_def Let_def)

lemma gen_loop_total:
  "iterate_steps a = None \<Longrightarrow> prompt a = Some p \<Longrightarrow>
   \<exists>st'. gen_loop ext rnd a run_dir stp w h is st = Inr st'"
proof (induction "is" arbitrary: st)
  case Nil
  then show ?case by simp
next
  case (Cons i "is")
  from gen_step_total[OF Cons.prems, of ext rnd run_dir stp w h i st] obtain st1 where
    "gen_step ext rnd a run_dir stp w h i st = Inr st1" by blast
  then show ?case using Cons.IH[OF Cons.prems, of st1] by simp
qed

text \<open>
  Claim C10. In \<^verbatim>\<open>generate_images\<close> of the wrapper, outside step-variation mode, the run
  returns, and with an explicit base seed \<open>s\<close> the command of variation \<open>i\<close> (counted from 1)
  carries the seed \<open>s + i - 1\<close>: the seeds of the run are consecutive and distinct, and every
  recorded result has the seed \<open>s + index - 1\<close>. Without a seed every recorded seed is a
  random draw from 1 to 1000000. (\<open>c ! 8\<close> is the argument after \<^verbatim>\<open>--seed\<close>.)
\<close>

theorem explicit_seed_gives_consecutive_seeds:
  assumes "iterate_steps a = None" and "prompt a = Some p"
    and "parse_resolution (resolution a) = Inr (w, h)"
  shows "\<exists>st. generate_images ext rnd a run_dir info0 = Inr st \<and>
           (seed a = Some s \<longrightarrow>
              map (\<lambda>c. c ! 8) (spawned st) = map (\<lambda>i. py_str (s + int i)) [0 ..< nat (variations a)] \<and>
              (\<forall>r \<in> set (results st). 1 \<le> index r \<and> index r \<le> variations a \<and> img_seed r = s + index r - 1) \<and>
              distinct (map (variation_seed a rnd) [0 ..< nat (variations a)])) \<and>
           (seed a = None \<longrightarrow>
              (\<forall>r \<in> set (results st). 1 \<le> img_seed r \<and> img_seed r \<le> 1000000))"
proof -
  let ?st0 = "\<lparr> results = [], saved = info0, spawned = [] \<rparr>"
  let ?is = "[0 ..< nat (variations a)]"
  from gen_loop_total[OF assms(1,2)] obtain st where
    l: "gen_loop ext rnd a run_dir (steps_or_default a) w h ?is ?st0 = Inr st" by blast
  have g: "generate_images ext rnd a run_dir info0 = Inr st"
    using l assms(3) by (simp add: generate_images_def)
  have sp: "map (\<lambda>c. c ! 8) (spawned st) = map (\<lambda>i. py_str (variation_seed a rnd i)) ?is"
    using gen_loop_spawned[OF l] by simp
  have rs: "set (results st) \<subseteq>
      {r. \<exists>i \<in> set ?is. index r = int i + 1 \<and> img_seed r = variation_seed a rnd i}"
    using gen_loop_results[OF l] by simp
  have A: "seed a = Some s \<longrightarrow>
              map (\<lambda>c. c ! 8) (spawned st) = map (\<lambda>i. py_str (s + int i)) ?is \<and>
              (\<forall>r \<in> set (results st). 1 \<le> index r \<and> index r \<le> variations a \<and> img_seed r = s + index r - 1) \<and>
              distinct (map (variation_seed a rnd) ?is)"
  proof
    assume e: "seed a = Some s"
    then have vs: "\<And>i. variation_seed a rnd i = s + int i" by (simp add: variation_seed_def)
    have 1: "map (\<lambda>c. c ! 8) (spawned st) = map (\<lambda>i. py_str (s + int i)) ?is"
      using sp by (simp add: vs)
    have 2: "\<forall>r \<in> set (results st). 1 \<le> index r \<and> index r \<le> variations a \<and> img_seed r = s + index r - 1"
      using rs by (auto simp: vs)
    have veq: "variation_seed a rnd = (\<lambda>i. s + int i)" using vs by auto
    have "inj_on (\<lambda>i. s + int i) (set ?is)" by (auto simp: inj_on_def)
    then have 3: "distinct (map (variation_seed a rnd) ?is)"
      by (simp add: veq distinct_map)
    from 1 2 3 show "map (\<lambda>c. c ! 8) (spawned st) = map (\<lambda>i. py_str (s + int i)) ?is \<and>
              (\<forall>r \<in> set (results st). 1 \<le> index r \<and> index r \<le> variations a \<and> img_seed r = s + index r - 1) \<and>
              distinct (map (variation_seed a rnd) ?is)" by blast
  qed
  have B: "seed a = None \<longrightarrow> (\<forall>r \<in> set (results st). 1 \<le> img_seed r \<and> img_seed r \<le> 1000000)"
  proof
    assume e: "seed a = None"
    have "\<And>i. 1 \<le> variation_seed a rnd i \<and> variation_seed a rnd i \<le> 1000000"
      using randint_range[of 1 1000000] by (simp add: variation_seed_def e)
    then show "\<forall>r \<in> set (results st). 1 \<le> img_seed r \<and> img_seed r \<le> 1000000"
      using rs by auto
  qed
  show ?thesis by (rule exI[of _ st]) (intro conjI g A B)
qed

theorem explicit_seed_witness:
  "\<exists>st. generate_images (\<lambda>i. 0) (\<lambda>i. 0) ex_args ''out/run_1'' None = Inr st \<and>
        map (\<lambda>c. c ! 8) (spawned st) = [''42'', ''43'', ''44'', ''45'']"
proof -
  have h1: "iterate_steps ex_args = None" by (simp add: ex_args_def default_args_def)
  have h2: "prompt ex_args = Some ''a cat''" by (simp add: ex_args_def default_args_def)
  have h3: "parse_resolution (resolution ex_args) = Inr (1024, 1024)" by code_simp
  have h4: "seed ex_args = Some 42" by (simp add: ex_args_def default_args_def)
  have h5: "variations ex_args = 4" by (simp add: ex_args_def default_args_def)
  have e: "map (\<lambda>i. py_str (42 + int i)) [0 ..< nat 4] = [''42'', ''43'', ''44'', ''45'']"
    by code_simp
  from explicit_seed_gives_consecutive_seeds[OF h1 h2 h3, of "\<lambda>i. 0" "\<lambda>i. 0" "''out/run_1''" None 42]
  obtain st where st: "generate_images (\<lambda>i. 0) (\<lambda>i. 0) ex_args ''out/run_1'' None = Inr st"
    and imp: "seed ex_args = Some 42 \<longrightarrow>
       map (\<lambda>c. c ! 8) (spawned st) = map (\<lambda>i. py_str (42 + int i)) [0 ..< nat (variations ex_args)] \<and>
       (\<forall>r \<in> set (results st). 1 \<le> index r \<and> index r \<le> variations ex_args \<and> img_seed r = 42 + index r - 1) \<and>
       distinct (map (variation_seed ex_args (\<lambda>i. 0)) [0 ..< nat (variations ex_args)])"
    by (elim exE conjE)
  from imp h4 have "map (\<lambda>c. c ! 8) (spawned st) = map (\<lambda>i. py_str (42 + int i)) [0 ..< nat (variations ex_args)]"
    by (elim impE conjE)
  then have sp: "map (\<lambda>c. c ! 8) (spawned st) = [''42'', ''43'', ''44'', ''45'']"
    unfolding h5 e .
  show ?thesis by (rule exI[of _ st]) (intro conjI st sp)
qed

section \<open>Allocation of run directories in a session\<close>

lemma py_str_inj: "py_str i = py_str j \<Longrightarrow> i = j"
proof -
  assume "py_str i = py_str j"
  then have "py_int (py_str i) = py_int (py_str j)" by simp
  then show "i = j" by (simp add: py_int_py_str)
qed

lemma run_name_inj: "run_name i = run_name j \<Longrightarrow> i = j"
  by (simp add: run_name_def py_str_inj)

lemma map_of_dict_set: "map_of (dict_set d k v) k = Some v"
  by (induction d k v rule: dict_set.induct) auto

lemma session_at_update: "session_at (update_session base name d) name = d"
  by (simp add: session_at_def update_session_def map_of_dict_set)

lemma reopen_allocated: "allocated base s dir k \<Longrightarrow> reopen base s = Inr s"
  by (simp add: allocated_def reopen_def)

lemma load_after_save:
  "load_run_counter (d\<lparr>counter_file := Some (py_str c)\<rparr>) = Inr c"
proof -
  have "py_int (strip (py_str c)) = py_int (py_str c)"
  proof -
    have "py_int (py_str c) = Inr c" by (rule py_int_py_str)
    show ?thesis
    proof (cases "c < 0")
      case True
      let ?ds = "nat_digits (nat (- c))"
      have ne: "?ds \<noteq> []" by (rule nat_digits_nonempty)
      have "\<not> is_space (last ?ds)" using nat_digits_ends(2) is_digit_facts(4) by simp
      then have l: "\<not> is_space (last (CHR ''-'' # ?ds))" using ne by simp
      have h: "\<not> is_space (hd (CHR ''-'' # ?ds))" by (simp add: is_space_def)
      have "strip (CHR ''-'' # ?ds) = CHR ''-'' # ?ds"
        using h l by (intro strip_id) simp_all
      then show ?thesis using True by (simp add: py_str_def)
    next
      case False
      then show ?thesis by (simp add: py_str_def strip_nat_digits)
    qed
  qed
  then show ?thesis by (simp add: load_run_counter_def py_int_py_str)
qed

lemma get_next_run_dir_allocated:
  assumes "allocated base s dir k"
  shows "\<exists>base1 s1. get_next_run_dir base s = (base1, s1, run_name (int (Suc k))) \<and>
           allocated base1 s1 dir (Suc k)"
proof -
  let ?d = "session_at base dir"
  let ?r = "run_name (int k + 1)"
  have cur: "current_session_dir s = dir" and rc: "run_counter s = int k"
    and names: "map fst (run_dirs ?d) = map (\<lambda>i. run_name (int i)) [1 ..< Suc k]"
    using assms by (simp_all add: allocated_def)
  have notin: "?r \<notin> set (map fst (run_dirs ?d))"
  proof
    assume "?r \<in> set (map fst (run_dirs ?d))"
    then have "?r \<in> (\<lambda>i. run_name (int i)) ` {1 ..< Suc k}"
      by (simp only: names set_map set_upt)
    then obtain i where i: "i \<in> {1 ..< Suc k}" "?r = run_name (int i)" by (rule imageE)
    from i(2) have "int k + 1 = int i" by (rule run_name_inj)
    then show False using i(1) by simp
  qed
  let ?d2 = "?d\<lparr>run_dirs := run_dirs ?d @ [(?r, None)], counter_file := Some (py_str (int k + 1))\<rparr>"
  let ?s1 = "s\<lparr>run_counter := int k + 1\<rparr>"
  have g: "get_next_run_dir base s = (update_session base dir ?d2, ?s1, ?r)"
    using notin by (simp add: get_next_run_dir_def Let_def cur rc run_name_def)
  have l: "load_run_counter ?d2 = Inr (int k + 1)"
    using load_after_save[where d="?d\<lparr>run_dirs := run_dirs ?d @ [(?r, None)]\<rparr>" and c="int k + 1"] by simp
  have n2: "map fst (run_dirs ?d2) = map (\<lambda>i. run_name (int i)) [1 ..< Suc (Suc k)]"
  proof -
    have "[1 ..< Suc (Suc k)] = [1 ..< Suc k] @ [Suc k]" by simp
    moreover have "int (Suc k) = int k + 1" by simp
    ultimately show ?thesis using names by (simp del: upt_Suc add: add.commute)
  qed
  have "allocated (update_session base dir ?d2) ?s1 dir (Suc k)"
    unfolding allocated_def session_at_update using cur l n2 by simp
  then show ?thesis using g by (simp add: add.commute)
qed

lemma allocate_runs_allocated:
  "allocated base s dir k \<Longrightarrow>
   \<exists>base' s'. allocate_runs calls base s =
       Inr (base', s', map (\<lambda>i. run_name (int i)) [Suc k ..< Suc (k + length calls)]) \<and>
     allocated base' s' dir (k + length calls)"
proof (induction calls arbitrary: base s k)
  case Nil
  then show ?case by simp
next
  case (Cons fresh calls)
  have s0: "(if fresh then reopen base s else Inr s) = Inr s"
    using reopen_allocated[OF Cons.prems] by simp
  from get_next_run_dir_allocated[OF Cons.prems] obtain base1 s1 where
    g: "get_next_run_dir base s = (base1, s1, run_name (int (Suc k)))" and
    a1: "allocated base1 s1 dir (Suc k)" by blast
  from Cons.IH[OF a1] obtain base' s' where
    r: "allocate_runs calls base1 s1 =
          Inr (base', s', map (\<lambda>i. run_name (int i)) [Suc (Suc k) ..< Suc (Suc k + length calls)])"
    and a': "allocated base' s' dir (Suc k + length calls)" by blast
  have e: "Suc (k + length (fresh # calls)) = Suc (Suc k + length calls)" by simp
  have u: "[Suc k ..< Suc (k + length (fresh # calls))] =
           Suc k # [Suc (Suc k) ..< Suc (Suc k + length calls)]"
    unfolding e by (rule upt_conv_Cons) simp
  have "allocate_runs (fresh # calls) base s =
        Inr (base', s', map (\<lambda>i. run_name (int i)) [Suc k ..< Suc (k + length (fresh # calls))])"
    unfolding u using s0 g r by simp
  moreover have "allocated base' s' dir (k + length (fresh # calls))" using a' by simp
  ultimately show ?case by blast
qed

lemma run_names_distinct: "distinct (map (\<lambda>i. run_name (int i)) [a ..< b])"
proof -
  have "inj_on (\<lambda>i. run_name (int i)) (set [a ..< b])"
    by (rule inj_onI) (auto dest: run_name_inj)
  then show ?thesis by (simp add: distinct_map)
qed

lemma session_run_ids:
  assumes "counter_file (session_at base dir) = None"
    and "run_dirs (session_at base dir) = []"
  shows "\<exists>base' s'.
           allocate_runs calls base \<lparr> current_session_dir = dir, run_counter = 0 \<rparr> =
             Inr (base', s', map (\<lambda>i. run_name (int i)) [1 ..< Suc (length calls)]) \<and>
           distinct (map (\<lambda>i. run_name (int i)) [1 ..< Suc (length calls)]) \<and>
           run_counter s' = int (length calls) \<and>
           load_run_counter (session_at base' dir) = Inr (int (length calls)) \<and>
           map fst (run_dirs (session_at base' dir)) =
             map (\<lambda>i. run_name (int i)) [1 ..< Suc (length calls)]"
proof -
  let ?s = "\<lparr> current_session_dir = dir, run_counter = 0 \<rparr>"
  have "allocated base ?s dir 0"
    using assms by (simp add: allocated_def load_run_counter_def)
  from allocate_runs_allocated[OF this, of calls] obtain base' s' where
    r: "allocate_runs calls base ?s =
          Inr (base', s', map (\<lambda>i. run_name (int i)) [Suc 0 ..< Suc (0 + length calls)])"
    and a: "allocated base' s' dir (0 + length calls)" by blast
  have r': "allocate_runs calls base ?s =
          Inr (base', s', map (\<lambda>i. run_name (int i)) [1 ..< Suc (length calls)])"
    using r by simp
  have a': "allocated base' s' dir (length calls)" using a by simp
  show ?thesis
    apply (rule exI[of _ base'], rule exI[of _ s'])
    using r' a' run_names_distinct[of 1 "Suc (length calls)"]
    by (simp add: allocated_def)
qed

section \<open>Resolution of the session to reuse\<close>
















section \<open>Settings taken from the previous run\<close>

lemma resolution_inherit_variations [simp]: "resolution (inherit_variations ls a) = resolution a"
  by (simp add: inherit_variations_def)

lemma any_format_flag_prompt [simp]: "any_format_flag (inherit_prompt f ls a) = any_format_flag a"
  by (simp add: inherit_prompt_def any_format_flag_def split: option.splits)

lemma resolution_inherit_prompt [simp]: "resolution (inherit_prompt f ls a) = resolution a"
  by (simp add: inherit_prompt_def split: option.splits)

lemma resolution_apply_last_settings:
  "resolution (apply_last_settings f ls a) =
     (if \<not> any_format_flag a \<and> resolution a = Some ''1024x1024''
      then ls_resolution ls else resolution a)"
  by (simp add: apply_last_settings_def inherit_resolution_def)

lemma set_resolution_flag: "any_format_flag (set_resolution a) = any_format_flag a"
  by (simp add: set_resolution_def any_format_flag_def)

text \<open>
  Claim C3, as the code has it. When the settings of a previous run are applied, a format
  flag, or a \<^verbatim>\<open>--resolution\<close> value other than \<^verbatim>\<open>1024x1024\<close>, keeps the resolution of the
  invocation whatever the previous run recorded (\<^verbatim>\<open>--landscape\<close> gives \<^verbatim>\<open>1024x576\<close>); with no
  format flag and the resolution \<^verbatim>\<open>1024x1024\<close> the resolution recorded by the previous run
  is taken; and with no session to take settings from, the resolution of the invocation
  stands (\<^verbatim>\<open>1024x1024\<close> when nothing was given).
\<close>

theorem resolution_precedence:
  "(any_format_flag a \<or> resolution a \<noteq> Some ''1024x1024'' \<longrightarrow>
      resolution (apply_last_settings f ls a) = resolution a) \<and>
   (landscape a \<longrightarrow>
      resolution (apply_last_settings f ls (set_resolution a)) = Some ''1024x576'') \<and>
   (\<not> any_format_flag a \<and> resolution a = Some ''1024x1024'' \<longrightarrow>
      resolution (apply_last_settings f ls a) = ls_resolution ls) \<and>
   (output_dir a = None \<and> recent_dirs strptime now (map fst w) = Inr [] \<and>
    create_output_directories strptime now f w a = Inr (w', a', base, run_dir) \<longrightarrow>
      resolution a' = resolution a)"
proof (intro conjI impI)
  assume "any_format_flag a \<or> resolution a \<noteq> Some ''1024x1024''"
  then show "resolution (apply_last_settings f ls a) = resolution a"
    by (auto simp: resolution_apply_last_settings)
next
  assume l: "landscape a"
  then have "any_format_flag a" by (simp add: any_format_flag_def)
  then have "any_format_flag (set_resolution a)" by (simp only: set_resolution_flag)
  moreover have "resolution (set_resolution a) = Some ''1024x576''"
    using l by (simp add: set_resolution_def)
  ultimately show "resolution (apply_last_settings f ls (set_resolution a)) = Some ''1024x576''"
    by (simp add: resolution_apply_last_settings)
next
  assume "\<not> any_format_flag a \<and> resolution a = Some ''1024x1024''"
  then show "resolution (apply_last_settings f ls a) = ls_resolution ls"
    by (simp add: resolution_apply_last_settings)
next
  assume h: "output_dir a = None \<and> recent_dirs strptime now (map fst w) = Inr [] \<and>
    create_output_directories strptime now f w a = Inr (w', a', base, run_dir)"
  then have h1: "output_dir a = None" and h2: "recent_dirs strptime now (map fst w) = Inr []"
    and h3: "create_output_directories strptime now f w a = Inr (w', a', base, run_dir)"
    by simp_all
  have r: "(if new a then Inr [] else recent_dirs strptime now (map fst w)) = Inr []"
    using h2 by simp
  have "make_run_dir w (''mflux_output_'' @ strftime now) a = Inr (w', a', base, run_dir)"
    using h3 unfolding create_output_directories_def r
    by (simp add: h1 truthy_def split: if_splits)
  then show "resolution a' = resolution a"
    by (auto simp: make_run_dir_def Let_def split: sum.splits)
qed

text \<open>
  Claim C3 as stated fails: the command line \<^verbatim>\<open>--prompt "a cat" --resolution 1024x1024\<close>
  gives the same namespace as \<^verbatim>\<open>--prompt "a cat"\<close>, and after a run that recorded \<^verbatim>\<open>512x512\<close>
  the resolution becomes \<^verbatim>\<open>512x512\<close>.
\<close>

theorem explicit_default_resolution_is_overridden:
  "resolution (apply_last_settings NoFile ex_last
      (default_args\<lparr>prompt := Some ''a cat'', resolution := Some ''1024x1024''\<rparr>)) =
     Some ''512x512''"
  by (simp add: resolution_apply_last_settings ex_last_def default_args_def any_format_flag_def)

theorem resolution_precedence_witness:
  "resolution (apply_last_settings NoFile ex_last
      (default_args\<lparr>prompt := Some ''a cat'', square_xl := True, resolution := Some ''2048x2048''\<rparr>)) =
     Some ''2048x2048'' \<and>
   resolution (apply_last_settings NoFile ex_last (default_args\<lparr>prompt := Some ''a cat''\<rparr>)) =
     Some ''512x512''"
proof -
  let ?a = "default_args\<lparr>prompt := Some ''a cat'', square_xl := True, resolution := Some ''2048x2048''\<rparr>"
  let ?b = "default_args\<lparr>prompt := Some ''a cat''\<rparr>"
  have ha: "any_format_flag ?a \<or> resolution ?a \<noteq> Some ''1024x1024''"
    by (simp add: default_args_def any_format_flag_def)
  have hb: "\<not> any_format_flag ?b \<and> resolution ?b = Some ''1024x1024''"
    by (simp add: default_args_def any_format_flag_def)
  have 1: "resolution (apply_last_settings NoFile ex_last ?a) = resolution ?a"
    by (rule resolution_precedence[of ?a NoFile ex_last, THEN conjunct1, THEN mp, OF ha])
  have 2: "resolution (apply_last_settings NoFile ex_last ?b) = ls_resolution ex_last"
    by (rule resolution_precedence[of ?b NoFile ex_last, THEN conjunct2, THEN conjunct2,
          THEN conjunct1, THEN mp, OF hb])
  show ?thesis using 1 2 by (simp add: default_args_def ex_last_def)
qed

text \<open>
  Claim C7 at the spec's own example. The previous run recorded the prompt
  \<^verbatim>\<open>a cat, painterly, soft\<close> and the style \<^verbatim>\<open>ghibli\<close>. After the style is edited to
  \<^verbatim>\<open>painterly, soft, muted\<close>, \<^verbatim>\<open>get_last_settings\<close> no longer finds a style whose description
  equals the text after the first comma, so it reports no style and the whole recorded
  prompt; the new run, with no prompt and no style, gets the prompt with the old text.
  With the style file unchanged the style is recognised and appended again.
\<close>

theorem edited_style_is_not_reappended:
  "ri_prompt ghibli_run = Some ''a cat, painterly, soft'' \<and>
   ri_style ghibli_run = Some ''ghibli'' \<and>
   (case get_last_settings styles_after [(''run_1'', Info ghibli_run)] of
      Inr (Some ls) \<Rightarrow>
        ls_style ls = None \<and>
        prompt (apply_last_settings styles_after ls default_args) = Some ''a cat, painterly, soft''
    | _ \<Rightarrow> False) \<and>
   (case get_last_settings styles_before [(''run_1'', Info ghibli_run)] of
      Inr (Some ls) \<Rightarrow>
        ls_style ls = Some ''ghibli'' \<and> ls_prompt ls = ''a cat'' \<and>
        prompt (apply_last_settings styles_before ls default_args) = Some ''a cat, painterly, soft''
    | _ \<Rightarrow> False)"
proof (intro conjI)
  show "ri_prompt ghibli_run = Some ''a cat, painterly, soft''" by code_simp
  show "ri_style ghibli_run = Some ''ghibli''" by code_simp
  show "case get_last_settings styles_after [(''run_1'', Info ghibli_run)] of
      Inr (Some ls) \<Rightarrow>
        ls_style ls = None \<and>
        prompt (apply_last_settings styles_after ls default_args) = Some ''a cat, painterly, soft''
    | _ \<Rightarrow> False" by code_simp
  show "case get_last_settings styles_before [(''run_1'', Info ghibli_run)] of
      Inr (Some ls) \<Rightarrow>
        ls_style ls = Some ''ghibli'' \<and> ls_prompt ls = ''a cat'' \<and>
        prompt (apply_last_settings styles_before ls default_args) = Some ''a cat, painterly, soft''
    | _ \<Rightarrow> False" by code_simp
qed

text \<open>
  Claim C4 at the spec's own example, \<^verbatim>\<open>--iterate 1,3,5,9 --seed 42\<close>. \<^verbatim>\<open>parse_args\<close> forces
  the variation count to 4 and clears \<^verbatim>\<open>steps\<close>. The record written before generation has
  the raw string \<^verbatim>\<open>"1,3,5,9"\<close> under \<^verbatim>\<open>"steps"\<close>, and the record \<^verbatim>\<open>save_run_info\<close> writes after
  the first image has the default step count of the model there: neither is the list.
\<close>

theorem iterate_record_has_default_steps:
  "(case snd (parse_args NoFile iterate_cmdline) of
      Inl e \<Rightarrow> False
    | Inr a \<Rightarrow>
        variations a = 4 \<and> iterate_steps a = Some [1, 3, 5, 9] \<and> steps a = None \<and>
        ri_variations (initial_info a) = 4 \<and>
        ri_steps (initial_info a) = StepsStr ''1,3,5,9'' \<and>
        (case gen_step (\<lambda>i. 0) (\<lambda>i. 0) a ''out/run_1'' (steps_or_default a) 1024 1024 0
                \<lparr> results = [], saved = Some (initial_info a), spawned = [] \<rparr> of
           Inl e \<Rightarrow> False
         | Inr st \<Rightarrow>
             map img_steps (results st) = [1] \<and>
             map ri_variations (case saved st of None \<Rightarrow> [] | Some r \<Rightarrow> [r]) = [4] \<and>
             map ri_steps (case saved st of None \<Rightarrow> [] | Some r \<Rightarrow> [r]) = [StepsInt 1]))"
  by code_simp

section \<open>A generation that fails\<close>

lemma read_after_update: "read_run_info (update_run_info base sdir run info) sdir run = Some info"
  by (simp add: read_run_info_def update_run_info_def Let_def session_at_update map_of_dict_set)

lemma generate_one_fail:
  assumes "ext (fst item) \<noteq> 0"
  shows "\<exists>ps'. generate_one ext g p sdir run item (ps, info) =
            ((ps', info), Some (CalledProcessError (ext (fst item)))) \<and>
          ps_base ps' = ps_base ps \<and> ps_session ps' = ps_session ps \<and>
          length (ps_spawned ps') = length (ps_spawned ps) + 1"
  using assms by (cases item) (simp add: generate_one_def Let_def)

lemma generate_one_ok:
  assumes "ext (fst item) = 0"
  shows "\<exists>ps' info'. generate_one ext g p sdir run item (ps, info) = ((ps', info'), None) \<and>
          read_run_info (ps_base ps') sdir run = Some info' \<and>
          ps_session ps' = ps_session ps \<and>
          length (ps_spawned ps') = length (ps_spawned ps) + 1 \<and>
          length (generated_files info') = length (generated_files info) + 1 \<and>
          run_status info' = run_status info \<and>
          total_iterations info' = total_iterations info \<and>
          completed_iterations info' = int (fst item) + 1"
  using assms by (cases item) (simp add: generate_one_def Let_def read_after_update)

lemma generation_loop_fail:
  assumes "j < length its" and "\<forall>m<j. ext (fst (its ! m)) = 0" and "ext (fst (its ! j)) \<noteq> 0"
    and "read_run_info (ps_base ps) sdir run = Some info"
  shows "\<exists>ps' info'.
           generation_loop ext g p sdir run its (ps, info) =
             ((ps', info'), Some (CalledProcessError (ext (fst (its ! j))))) \<and>
           read_run_info (ps_base ps') sdir run = Some info' \<and>
           ps_session ps' = ps_session ps \<and>
           length (ps_spawned ps') = length (ps_spawned ps) + j + 1 \<and>
           length (generated_files info') = length (generated_files info) + j \<and>
           run_status info' = run_status info \<and>
           total_iterations info' = total_iterations info \<and>
           completed_iterations info' =
             (if j = 0 then completed_iterations info else int (fst (its ! (j - 1))) + 1)"
  using assms
proof (induction its arbitrary: j ps info)
  case Nil
  then show ?case by simp
next
  case (Cons item its)
  show ?case
  proof (cases j)
    case 0
    then have f: "ext (fst item) \<noteq> 0" using Cons.prems(3) by simp
    from generate_one_fail[where ext=ext and item=item and g=g and p=p and sdir=sdir and run=run and ps=ps and info=info, OF f] obtain ps' where
      o: "generate_one ext g p sdir run item (ps, info) =
            ((ps', info), Some (CalledProcessError (ext (fst item))))"
      and b: "ps_base ps' = ps_base ps" "ps_session ps' = ps_session ps"
        "length (ps_spawned ps') = length (ps_spawned ps) + 1" by blast
    show ?thesis
      apply (rule exI[of _ ps'], rule exI[of _ info])
      using o b Cons.prems(4) 0 by simp
  next
    case (Suc j')
    have ok: "ext (fst item) = 0" using Cons.prems(2) Suc by auto
    from generate_one_ok[where ext=ext and item=item and g=g and p=p and sdir=sdir and run=run and ps=ps and info=info, OF ok] obtain ps1 info1 where
      o: "generate_one ext g p sdir run item (ps, info) = ((ps1, info1), None)"
      and r1: "read_run_info (ps_base ps1) sdir run = Some info1"
      and s1: "ps_session ps1 = ps_session ps"
      and l1: "length (ps_spawned ps1) = length (ps_spawned ps) + 1"
      and g1: "length (generated_files info1) = length (generated_files info) + 1"
      and st1: "run_status info1 = run_status info"
      and t1: "total_iterations info1 = total_iterations info"
      and c1: "completed_iterations info1 = int (fst item) + 1" by blast
    have p1: "j' < length its" using Cons.prems(1) Suc by simp
    have p2: "\<forall>m<j'. ext (fst (its ! m)) = 0"
    proof (intro allI impI)
      fix m assume "m < j'"
      then have "Suc m < j" using Suc by simp
      then have "ext (fst ((item # its) ! Suc m)) = 0" using Cons.prems(2) by blast
      then show "ext (fst (its ! m)) = 0" by simp
    qed
    have p3: "ext (fst (its ! j')) \<noteq> 0" using Cons.prems(3) Suc by simp
    from Cons.IH[OF p1 p2 p3 r1] obtain ps' info' where
      L: "generation_loop ext g p sdir run its (ps1, info1) =
             ((ps', info'), Some (CalledProcessError (ext (fst (its ! j')))))"
      and R: "read_run_info (ps_base ps') sdir run = Some info'"
      and S: "ps_session ps' = ps_session ps1"
      and Lp: "length (ps_spawned ps') = length (ps_spawned ps1) + j' + 1"
      and G: "length (generated_files info') = length (generated_files info1) + j'"
      and St: "run_status info' = run_status info1"
      and T: "total_iterations info' = total_iterations info1"
      and C: "completed_iterations info' =
             (if j' = 0 then completed_iterations info1 else int (fst (its ! (j' - 1))) + 1)"
      by blast
    have C': "completed_iterations info' = int (fst ((item # its) ! (j - 1))) + 1"
    proof (cases j')
      case 0
      then show ?thesis using C c1 Suc by simp
    next
      case (Suc j'')
      then show ?thesis using C \<open>j = Suc j'\<close> by simp
    qed
    have E: "generation_loop ext g p sdir run (item # its) (ps, info) =
             ((ps', info'), Some (CalledProcessError (ext (fst ((item # its) ! j)))))"
      using o L Suc by simp
    show ?thesis
      apply (rule exI[of _ ps'], rule exI[of _ info'])
      using E R S s1 Lp l1 G g1 St st1 T t1 C' Suc by simp
  qed
qed

lemma generate_items_nth:
  "m < nat iterations \<Longrightarrow> fst (generate_items rnd g iterations sd ! m) = m"
  by (simp add: generate_items_def Let_def)

lemma generate_items_length: "length (generate_items rnd g iterations sd) = nat iterations"
  by (simp add: generate_items_def)

lemma gen_step_outcome:
  assumes "gen_step ext rnd a run_dir stp w h i st = Inr st'"
  shows "length (spawned st') = length (spawned st) + 1"
    and "map index (results st') =
           map index (results st) @ (if ext i = 0 then [int i + 1] else [])"
    and "ext i = 0 \<longrightarrow> saved st' = Some (save_run_info a (results st'))"
    and "ext i \<noteq> 0 \<longrightarrow> saved st' = saved st"
  using assms
  by (auto simp: gen_step_def Let_def split: sum.splits option.splits if_splits)

lemma gen_loop_outcome:
  "gen_loop ext rnd a run_dir stp w h is st = Inr st' \<Longrightarrow>
   length (spawned st') = length (spawned st) + length is \<and>
   map index (results st') =
     map index (results st) @ map (\<lambda>i. int i + 1) (filter (\<lambda>i. ext i = 0) is)"
proof (induction "is" arbitrary: st)
  case Nil
  then show ?case by simp
next
  case (Cons i "is")
  from Cons.prems obtain st1 where
    s1: "gen_step ext rnd a run_dir stp w h i st = Inr st1" and
    l1: "gen_loop ext rnd a run_dir stp w h is st1 = Inr st'"
    by (auto split: sum.splits)
  show ?case
    using Cons.IH[OF l1] gen_step_outcome(1,2)[OF s1] by simp
qed

lemma generate_images_outcome:
  assumes "generate_images ext rnd a run_dir info0 = Inr st"
  shows "length (spawned st) = nat (variations a) \<and>
         map index (results st) =
           map (\<lambda>i. int i + 1) (filter (\<lambda>i. ext i = 0) [0 ..< nat (variations a)])"
proof -
  from assms obtain w h where
    l: "gen_loop ext rnd a run_dir (steps_or_default a) w h [0 ..< nat (variations a)]
          \<lparr> results = [], saved = info0, spawned = [] \<rparr> = Inr st"
    by (auto simp: generate_images_def split: sum.splits)
  show ?thesis using gen_loop_outcome[OF l] by simp
qed

lemma generate_aborts:
  assumes k: "k < nat iterations" and ok: "\<forall>i<k. ext i = 0" and bad: "ext k \<noteq> 0"
  shows "\<exists>ps' info.
           generate ext rnd g p iterations sd ps = (ps', Inl (CalledProcessError (ext k))) \<and>
           length (ps_spawned ps') = length (ps_spawned ps) + k + 1 \<and>
           read_run_info (ps_base ps') (current_session_dir (ps_session ps))
             (''run_'' @ py_str (run_counter (ps_session ps) + 1)) = Some info \<and>
           length (generated_files info) = k \<and> completed_iterations info = int k \<and>
           run_status info = In_progress \<and> total_iterations info = iterations"
proof -
  let ?its = "generate_items rnd g iterations sd"
  let ?sdir = "current_session_dir (ps_session ps)"
  let ?run = "''run_'' @ py_str (run_counter (ps_session ps) + 1)"
  obtain base1 s1 where n: "get_next_run_dir (ps_base ps) (ps_session ps) = (base1, s1, ?run)"
    and sd1: "current_session_dir s1 = ?sdir"
    by (simp add: get_next_run_dir_def Let_def)
  let ?info0 = "\<lparr> total_iterations = iterations, completed_iterations = 0,
                  run_status = In_progress, step_variations = None, generated_files = [] \<rparr>"
  let ?ps1 = "ps\<lparr>ps_base := update_run_info base1 ?sdir ?run ?info0, ps_session := s1\<rparr>"
  have j: "k < length ?its" using k by (simp add: generate_items_length)
  have a: "\<forall>m<k. ext (fst (?its ! m)) = 0"
    using ok k by (simp add: generate_items_nth)
  have b: "ext (fst (?its ! k)) \<noteq> 0" using bad k by (simp add: generate_items_nth)
  have r: "read_run_info (ps_base ?ps1) ?sdir ?run = Some ?info0"
    by (simp add: read_after_update)
  from generation_loop_fail[OF j a b r] obtain ps' info' where
    L: "generation_loop ext g p ?sdir ?run ?its (?ps1, ?info0) =
           ((ps', info'), Some (CalledProcessError (ext (fst (?its ! k)))))"
    and R: "read_run_info (ps_base ps') ?sdir ?run = Some info'"
    and Lp: "length (ps_spawned ps') = length (ps_spawned ?ps1) + k + 1"
    and G: "length (generated_files info') = length (generated_files ?info0) + k"
    and St: "run_status info' = run_status ?info0"
    and T: "total_iterations info' = total_iterations ?info0"
    and C: "completed_iterations info' =
             (if k = 0 then completed_iterations ?info0 else int (fst (?its ! (k - 1))) + 1)"
    by blast
  have fk: "fst (?its ! k) = k" using k by (simp add: generate_items_nth)
  have C': "completed_iterations info' = int k"
  proof (cases k)
    case 0
    then show ?thesis using C by simp
  next
    case (Suc k')
    then have "k' < nat iterations" using k by simp
    then have "fst (?its ! k') = k'" by (simp add: generate_items_nth)
    then show ?thesis using C Suc by simp
  qed
  have E: "generate ext rnd g p iterations sd ps = (ps', Inl (CalledProcessError (ext k)))"
    using L fk by (simp add: generate_def run_items_def n sd1 Let_def)
  show ?thesis
    apply (rule exI[of _ ps'], rule exI[of _ info'])
    using E R Lp G St T C' by simp
qed

text \<open>
  Claim C6, as the code has it. In \<^verbatim>\<open>Generator.generate\<close> of the package, when the external
  program first exits non-zero at iteration \<open>k\<close> (counted from 0, so \<open>k\<close> iterations succeeded),
  the exception leaves the run: exactly \<open>k + 1\<close> commands were run, none after the failing one
  and none twice, and the record on disk has the \<open>k\<close> completed entries and the status
  \<^verbatim>\<open>in_progress\<close>. In \<^verbatim>\<open>generate_images\<close> of the wrapper a failure is caught inside the loop:
  every variation is attempted once and the results are those of the successful ones.
\<close>

theorem failed_generation:
  "(k < nat iterations \<and> (\<forall>i<k. ext i = 0) \<and> ext k \<noteq> 0 \<longrightarrow>
      (\<exists>ps' info.
           generate ext rnd g p iterations sd ps = (ps', Inl (CalledProcessError (ext k))) \<and>
           length (ps_spawned ps') = length (ps_spawned ps) + k + 1 \<and>
           read_run_info (ps_base ps') (current_session_dir (ps_session ps))
             (''run_'' @ py_str (run_counter (ps_session ps) + 1)) = Some info \<and>
           length (generated_files info) = k \<and> completed_iterations info = int k \<and>
           run_status info = In_progress \<and> total_iterations info = iterations)) \<and>
   (generate_images ext rnd' a run_dir info0 = Inr st \<longrightarrow>
      length (spawned st) = nat (variations a) \<and>
      map index (results st) =
        map (\<lambda>i. int i + 1) (filter (\<lambda>i. ext i = 0) [0 ..< nat (variations a)]))"
proof (intro conjI impI)
  assume "k < nat iterations \<and> (\<forall>i<k. ext i = 0) \<and> ext k \<noteq> 0"
  then have "k < nat iterations" "\<forall>i<k. ext i = 0" "ext k \<noteq> 0" by simp_all
  then show "\<exists>ps' info.
           generate ext rnd g p iterations sd ps = (ps', Inl (CalledProcessError (ext k))) \<and>
           length (ps_spawned ps') = length (ps_spawned ps) + k + 1 \<and>
           read_run_info (ps_base ps') (current_session_dir (ps_session ps))
             (''run_'' @ py_str (run_counter (ps_session ps) + 1)) = Some info \<and>
           length (generated_files info) = k \<and> completed_iterations info = int k \<and>
           run_status info = In_progress \<and> total_iterations info = iterations"
    by (rule generate_aborts)
next
  assume g: "generate_images ext rnd' a run_dir info0 = Inr st"
  show "length (spawned st) = nat (variations a)"
    using generate_images_outcome[OF g] by simp
  show "map index (results st) =
        map (\<lambda>i. int i + 1) (filter (\<lambda>i. ext i = 0) [0 ..< nat (variations a)])"
    using generate_images_outcome[OF g] by simp
qed

theorem failed_generation_witness:
  "\<exists>ps' info.
     generate third_fails (\<lambda>i. 0) ex_generator ''a cat'' 4 (Some 7) ex_pkg_state =
       (ps', Inl (CalledProcessError 1)) \<and>
     length (ps_spawned ps') = 3 \<and>
     read_run_info (ps_base ps') ''mflux_output_20250308_170709'' ''run_1'' = Some info \<and>
     length (generated_files info) = 2 \<and> run_status info = In_progress"
proof -
  have h: "2 < nat 4 \<and> (\<forall>i<2. third_fails i = 0) \<and> third_fails 2 \<noteq> 0"
    by (simp add: third_fails_def)
  have n: "''run_'' @ py_str (run_counter (ps_session ex_pkg_state) + 1) = ''run_1''"
    by code_simp
  have d: "current_session_dir (ps_session ex_pkg_state) = ''mflux_output_20250308_170709''"
    by (simp add: ex_pkg_state_def)
  have l: "length (ps_spawned ex_pkg_state) = 0" by (simp add: ex_pkg_state_def)
  have t: "third_fails 2 = 1" by (simp add: third_fails_def)
  from failed_generation[where k=2 and iterations=4 and ext=third_fails and rnd="\<lambda>i. 0"
      and g=ex_generator and p="''a cat''" and sd="Some 7" and ps=ex_pkg_state,
      THEN conjunct1, THEN mp, OF h]
  obtain ps' info where
    1: "generate third_fails (\<lambda>i. 0) ex_generator ''a cat'' 4 (Some 7) ex_pkg_state =
          (ps', Inl (CalledProcessError (third_fails 2)))"
    and 2: "length (ps_spawned ps') = length (ps_spawned ex_pkg_state) + 2 + 1"
    and 3: "read_run_info (ps_base ps') (current_session_dir (ps_session ex_pkg_state))
             (''run_'' @ py_str (run_counter (ps_session ex_pkg_state) + 1)) = Some info"
    and 4: "length (generated_files info) = 2" and 5: "run_status info = In_progress"
    by (elim exE conjE)
  show ?thesis
    apply (rule exI[of _ ps'], rule exI[of _ info])
    using 1 2 3 4 5 unfolding n d l t by simp
qed

text \<open>
  Claim C6 as stated fails in the wrapper: in a run of four variations whose third
  invocation exits non-zero, the fourth is still attempted (four commands are run) and the
  results are those of the variations 1, 2 and 4.
\<close>

theorem wrapper_continues_after_failure:
  "(case generate_images third_fails (\<lambda>i. 0) ex_args ''out/run_1'' None of
      Inl e \<Rightarrow> False
    | Inr st \<Rightarrow> length (spawned st) = 4 \<and> map index (results st) = [1, 2, 4])"
proof -
  have h1: "iterate_steps ex_args = None" by (simp add: ex_args_def default_args_def)
  have h2: "prompt ex_args = Some ''a cat''" by (simp add: ex_args_def default_args_def)
  have h3: "parse_resolution (resolution ex_args) = Inr (1024, 1024)" by code_simp
  have h5: "variations ex_args = 4" by (simp add: ex_args_def default_args_def)
  from gen_loop_total[OF h1 h2] obtain st where
    l: "gen_loop third_fails (\<lambda>i. 0) ex_args ''out/run_1'' (steps_or_default ex_args) 1024 1024
          [0 ..< nat (variations ex_args)] \<lparr> results = [], saved = None, spawned = [] \<rparr> = Inr st"
    by blast
  have g: "generate_images third_fails (\<lambda>i. 0) ex_args ''out/run_1'' None = Inr st"
    using l h3 by (simp add: generate_images_def)
  have f: "map (\<lambda>i. int i + 1) (filter (\<lambda>i. third_fails i = 0) [0 ..< nat 4]) = [1, 2, 4]"
    by code_simp
  have "length (spawned st) = 4 \<and> map index (results st) = [1, 2, 4]"
    using generate_images_outcome[OF g] unfolding h5 f by simp
  then show ?thesis by (simp add: g)
qed

section \<open>Errors of configuration and corrupt state in the package\<close>

lemma Session_on_empty_disk:
  "Session (2025, 3, 8, 17, 7, 9, 0) None False =
     (Some [(''mflux_output_20250308_170709'', empty_session)],
      Inr \<lparr> current_session_dir = ''mflux_output_20250308_170709'', run_counter = 0 \<rparr>)"
  by code_simp

lemma Session_on_corrupt_counter:
  "Session (2025, 3, 8, 17, 7, 9, 0) corrupt_counter_base False =
     (corrupt_counter_base, Inl ValueError)"
  by code_simp

lemma Generator_default:
  "Generator DEFAULT_MODEL =
     Inr \<lparr> g_model = ''schnell'', g_width = 1024, g_height = 1024, g_steps = 1 \<rparr>"
  by code_simp

text \<open>
  Claim C5 on the command \<^verbatim>\<open>generate\<close> of the package, with no base directory on disk:
  \<^verbatim>\<open>--vary-steps\<close> without \<^verbatim>\<open>--seed\<close> ends with the exit code 1, but the session was made
  before the check, so a new session directory exists afterwards. In the wrapper the same
  request is refused by \<^verbatim>\<open>parse_args\<close>, before any directory is looked at.
\<close>

theorem vary_steps_without_seed_creates_session:
  "cli_generate (\<lambda>i. 0) (\<lambda>i. 0) (2025, 3, 8, 17, 7, 9, 0) [] None vary_steps_no_seed =
     (Some [(''mflux_output_20250308_170709'', empty_session)], 1) \<and>
   parse_args NoFile (default_args\<lparr>prompt := Some ''a cat'', iterate := Some ''1,3,5,9''\<rparr>) =
     (NoFile, Inl ValueError)"
proof (intro conjI)
  show "cli_generate (\<lambda>i. 0) (\<lambda>i. 0) (2025, 3, 8, 17, 7, 9, 0) [] None vary_steps_no_seed =
     (Some [(''mflux_output_20250308_170709'', empty_session)], 1)"
    unfolding cli_generate_def cli_generate_body_def
    by (simp add: vary_steps_no_seed_def Session_on_empty_disk Generator_default truthy_def)
  show "parse_args NoFile (default_args\<lparr>prompt := Some ''a cat'', iterate := Some ''1,3,5,9''\<rparr>) =
     (NoFile, Inl ValueError)" by code_simp
qed

text \<open>
  Claim C9 on a counter file with the text \<^verbatim>\<open>abc\<close>: \<^verbatim>\<open>_load_run_counter\<close> raises
  \<^verbatim>\<open>ValueError\<close> instead of giving 0, and the invocation that finds this session ends with
  the exit code 1 without making a run. A style file that is no JSON likewise makes
  \<^verbatim>\<open>get_style\<close> raise. The other reads are tolerant: a directory name that does not parse
  is skipped, \<^verbatim>\<open>list_styles\<close> skips the bad file, and the wrapper reads a bad style file as
  empty.
\<close>

theorem corrupt_counter_is_fatal:
  "load_run_counter \<lparr> counter_file = Some ''abc'', run_dirs = [] \<rparr> = Inl ValueError \<and>
   load_run_counter \<lparr> counter_file = None, run_dirs = [] \<rparr> = Inr 0 \<and>
   cli_generate (\<lambda>i. 0) (\<lambda>i. 0) (2025, 3, 8, 17, 7, 9, 0) [] corrupt_counter_base plain_generate =
     (corrupt_counter_base, 1) \<and>
   pkg_get_style [(''ghibli.json'', BadStyleJson)] ''ghibli'' = Inl JSONDecodeError \<and>
   find_valid_session (2025, 3, 8, 17, 7, 9, 0) (Some [(''mflux_output_bad'', empty_session)]) = None \<and>
   pkg_list_styles [(''ghibli.json'', BadStyleJson)] = [] \<and>
   load_styles BadJson = []"
proof (intro conjI)
  show "load_run_counter \<lparr> counter_file = Some ''abc'', run_dirs = [] \<rparr> = Inl ValueError"
    by code_simp
  show "load_run_counter \<lparr> counter_file = None, run_dirs = [] \<rparr> = Inr 0"
    by code_simp
  show "cli_generate (\<lambda>i. 0) (\<lambda>i. 0) (2025, 3, 8, 17, 7, 9, 0) [] corrupt_counter_base plain_generate =
     (corrupt_counter_base, 1)"
    unfolding cli_generate_def cli_generate_body_def
    by (simp add: plain_generate_def Session_on_corrupt_counter)
  show "pkg_get_style [(''ghibli.json'', BadStyleJson)] ''ghibli'' = Inl JSONDecodeError"
    by code_simp
  show "find_valid_session (2025, 3, 8, 17, 7, 9, 0) (Some [(''mflux_output_bad'', empty_session)]) = None"
    by code_simp
  show "pkg_list_styles [(''ghibli.json'', BadStyleJson)] = []" by code_simp
  show "load_styles BadJson = []" by code_simp
qed

section \<open>Run numbers in the wrapper and in the package\<close>

lemma split_no_sep: "c \<notin> set s \<Longrightarrow> split c s = [s]"
  by (induction s) auto

lemma py_str_no_underscore: "CHR ''_'' \<notin> set (py_str k)"
proof -
  have "\<forall>c \<in> set (nat_digits n). c \<noteq> CHR ''_''" for n
    using nat_digits_chars[of n] is_digit_facts(1) by (auto simp: list_all_iff)
  then show ?thesis by (auto simp: py_str_def)
qed

lemma run_number_run_name: "run_number (run_name k) = Inr k"
proof -
  have "split CHR ''_'' (run_name k) = [''run'', py_str k]"
    by (simp add: run_name_def split_no_sep[OF py_str_no_underscore])
  then show ?thesis by (simp add: run_number_def index_at_def py_int_py_str)
qed

lemma map_result_run_number:
  "map_result run_number (map run_name ks) = Inr ks"
  by (induction ks) (simp_all add: run_number_run_name)

lemma startswith_run_name: "startswith (run_name k) ''run_''"
  by (simp add: run_name_def)

lemma next_run_after:
  assumes "run_entries dir = map (\<lambda>i. run_name (int i)) [1 ..< Suc k]"
  shows "next_run dir = Inr (int k + 1)"
proof (cases k)
  case 0
  then show ?thesis using assms by (simp add: next_run_def run_entries_def)
next
  case (Suc k')
  let ?ks = "map int [1 ..< Suc k]"
  have e: "run_entries dir = map run_name ?ks" using assms by (simp add: comp_def)
  have ne: "run_entries dir \<noteq> []" using e Suc by simp
  have m: "Max (set ?ks) = int k"
  proof (rule Max_eqI)
    show "finite (set ?ks)" by simp
    show "\<And>y. y \<in> set ?ks \<Longrightarrow> y \<le> int k" by auto
    show "int k \<in> set ?ks" using Suc by auto
  qed
  have mr: "map_result run_number (run_entries dir) = Inr ?ks"
    unfolding e by (rule map_result_run_number)
  have "next_run dir = Inr (Max (set ?ks) + 1)"
    unfolding next_run_def Let_def run_entries_def[symmetric] using ne mr by simp
  then show ?thesis unfolding m .
qed

lemma map_fst_dict_set:
  "map fst (dict_set d k v) = (if k \<in> set (map fst d) then map fst d else map fst d @ [k])"
  by (induction d k v rule: dict_set.induct) auto

lemma make_run_dir_next:
  assumes "run_entries (listing w base) = map (\<lambda>i. run_name (int i)) [1 ..< Suc k]"
  shows "\<exists>w1. make_run_dir w base a = Inr (w1, a, base, path_join base (run_name (int (Suc k)))) \<and>
           run_entries (listing w1 base) = map (\<lambda>i. run_name (int i)) [1 ..< Suc (Suc k)]"
proof -
  let ?dir = "listing w base"
  let ?run = "run_name (int k + 1)"
  have n: "next_run ?dir = Inr (int k + 1)" by (rule next_run_after[OF assms])
  have notin: "?run \<notin> set (map fst ?dir)"
  proof
    assume "?run \<in> set (map fst ?dir)"
    then have "?run \<in> set (run_entries ?dir)"
      by (simp add: run_entries_def startswith_run_name)
    then have "?run \<in> (\<lambda>i. run_name (int i)) ` {1 ..< Suc k}"
      by (simp only: assms set_map set_upt)
    then obtain i where i: "i \<in> {1 ..< Suc k}" "?run = run_name (int i)" by (rule imageE)
    from i(2) have "int k + 1 = int i" by (rule run_name_inj)
    then show False using i(1) by simp
  qed
  let ?dir1 = "dict_set ?dir ?run (Info (initial_info a))"
  let ?dir2 = "if ''index.html'' \<in> set (map fst ?dir1) then ?dir1
               else ?dir1 @ [(''index.html'', NoInfoFile)]"
  have f1: "map fst ?dir1 = map fst ?dir @ [?run]"
    using notin by (simp add: map_fst_dict_set)
  have r1: "run_entries ?dir1 = run_entries ?dir @ [?run]"
    by (simp add: run_entries_def f1 startswith_run_name)
  have r2: "run_entries ?dir2 = run_entries ?dir @ [?run]"
    using r1 by (simp add: run_entries_def)
  have u: "[1 ..< Suc (Suc k)] = [1 ..< Suc k] @ [Suc k]" by simp
  have r3: "run_entries ?dir2 = map (\<lambda>i. run_name (int i)) [1 ..< Suc (Suc k)]"
    unfolding r2 u assms by (simp add: add.commute)
  have l: "listing (dict_set w base ?dir2) base = ?dir2"
    by (simp add: listing_def map_of_dict_set)
  have m: "make_run_dir w base a =
           Inr (dict_set w base ?dir2, a, base, path_join base (run_name (int (Suc k))))"
    using n unfolding make_run_dir_def listing_def[symmetric]
    by (simp add: Let_def run_name_def add.commute)
  show ?thesis
    apply (rule exI[of _ "dict_set w base ?dir2"])
    using m r3 l by simp
qed

lemma make_runs_sequence:
  "run_entries (listing w base) = map (\<lambda>i. run_name (int i)) [1 ..< Suc k] \<Longrightarrow>
   \<exists>w'. make_runs n w base a =
       Inr (w', map (\<lambda>i. path_join base (run_name (int i))) [Suc k ..< Suc (k + n)]) \<and>
     run_entries (listing w' base) = map (\<lambda>i. run_name (int i)) [1 ..< Suc (k + n)]"
proof (induction n arbitrary: w k)
  case 0
  then show ?case by simp
next
  case (Suc n)
  from make_run_dir_next[OF Suc.prems, of a] obtain w1 where
    m: "make_run_dir w base a = Inr (w1, a, base, path_join base (run_name (int (Suc k))))"
    and r: "run_entries (listing w1 base) = map (\<lambda>i. run_name (int i)) [1 ..< Suc (Suc k)]"
    by blast
  from Suc.IH[OF r] obtain w' where
    s: "make_runs n w1 base a =
       Inr (w', map (\<lambda>i. path_join base (run_name (int i))) [Suc (Suc k) ..< Suc (Suc k + n)])"
    and r': "run_entries (listing w' base) = map (\<lambda>i. run_name (int i)) [1 ..< Suc (Suc k + n)]"
    by blast
  have e: "Suc (k + Suc n) = Suc (Suc k + n)" by simp
  have u: "[Suc k ..< Suc (k + Suc n)] = Suc k # [Suc (Suc k) ..< Suc (Suc k + n)]"
    unfolding e by (rule upt_conv_Cons) simp
  have "make_runs (Suc n) w base a =
       Inr (w', map (\<lambda>i. path_join base (run_name (int i))) [Suc k ..< Suc (k + Suc n)])"
    unfolding u using m s by simp
  moreover have "run_entries (listing w' base) = map (\<lambda>i. run_name (int i)) [1 ..< Suc (k + Suc n)]"
    using r' by simp
  ultimately show ?case by blast
qed

text \<open>
  Claim C1. Starting from a session directory with no counter file and no run directory,
  any sequence of \<open>N\<close> calls of \<^verbatim>\<open>get_next_run_dir\<close> (each on the same \<^verbatim>\<open>Session\<close> object or on a
  new one, which reads the persisted counter again) returns the run directories
  \<^verbatim>\<open>run_1\<close>, ..., \<^verbatim>\<open>run_N\<close> in this order, with no repeats; afterwards the counter in memory
  and the persisted counter are \<open>N\<close> and the directories on disk are exactly these. The
  wrapper, which takes the greatest existing run number plus one, numbers \<open>n\<close> successive
  runs in a base directory without run directories \<^verbatim>\<open>run_1\<close>, ..., \<^verbatim>\<open>run_n\<close> as well.
\<close>

theorem run_ids_are_one_to_n:
  assumes "counter_file (session_at base dir) = None"
    and "run_dirs (session_at base dir) = []"
    and "run_entries (listing w wbase) = []"
  shows "(\<exists>base' s'.
           allocate_runs calls base \<lparr> current_session_dir = dir, run_counter = 0 \<rparr> =
             Inr (base', s', map (\<lambda>i. run_name (int i)) [1 ..< Suc (length calls)]) \<and>
           distinct (map (\<lambda>i. run_name (int i)) [1 ..< Suc (length calls)]) \<and>
           run_counter s' = int (length calls) \<and>
           load_run_counter (session_at base' dir) = Inr (int (length calls)) \<and>
           map fst (run_dirs (session_at base' dir)) =
             map (\<lambda>i. run_name (int i)) [1 ..< Suc (length calls)]) \<and>
         (\<exists>w'. make_runs n w wbase a =
             Inr (w', map (\<lambda>i. path_join wbase (run_name (int i))) [1 ..< Suc n]) \<and>
           run_entries (listing w' wbase) = map (\<lambda>i. run_name (int i)) [1 ..< Suc n])"
proof (rule conjI)
  show "\<exists>base' s'.
           allocate_runs calls base \<lparr> current_session_dir = dir, run_counter = 0 \<rparr> =
             Inr (base', s', map (\<lambda>i. run_name (int i)) [1 ..< Suc (length calls)]) \<and>
           distinct (map (\<lambda>i. run_name (int i)) [1 ..< Suc (length calls)]) \<and>
           run_counter s' = int (length calls) \<and>
           load_run_counter (session_at base' dir) = Inr (int (length calls)) \<and>
           map fst (run_dirs (session_at base' dir)) =
             map (\<lambda>i. run_name (int i)) [1 ..< Suc (length calls)]"
    by (rule session_run_ids[OF assms(1,2)])
next
  have "run_entries (listing w wbase) = map (\<lambda>i. run_name (int i)) [1 ..< Suc 0]"
    using assms(3) by simp
  from make_runs_sequence[OF this, of n a] obtain w' where
    "make_runs n w wbase a =
       Inr (w', map (\<lambda>i. path_join wbase (run_name (int i))) [Suc 0 ..< Suc (0 + n)])"
    and "run_entries (listing w' wbase) = map (\<lambda>i. run_name (int i)) [1 ..< Suc (0 + n)]"
    by blast
  then have "make_runs n w wbase a =
             Inr (w', map (\<lambda>i. path_join wbase (run_name (int i))) [1 ..< Suc n]) \<and>
           run_entries (listing w' wbase) = map (\<lambda>i. run_name (int i)) [1 ..< Suc n]"
    by simp
  then show "\<exists>w'. make_runs n w wbase a =
             Inr (w', map (\<lambda>i. path_join wbase (run_name (int i))) [1 ..< Suc n]) \<and>
           run_entries (listing w' wbase) = map (\<lambda>i. run_name (int i)) [1 ..< Suc n]"
    by (rule exI)
qed

theorem run_ids_witness:
  "(\<exists>base' s'.
     allocate_runs [True, False, True] None
       \<lparr> current_session_dir = ''mflux_output_20250308_170709'', run_counter = 0 \<rparr> =
       Inr (base', s', [''run_1'', ''run_2'', ''run_3''])) \<and>
   (\<exists>w'. make_runs 3 [] ''out'' ex_args = Inr (w', [''out/run_1'', ''out/run_2'', ''out/run_3'']))"
proof -
  have h1: "counter_file (session_at None ''mflux_output_20250308_170709'') = None"
    by (simp add: session_at_def)
  have h2: "run_dirs (session_at None ''mflux_output_20250308_170709'') = []"
    by (simp add: session_at_def)
  have h3: "run_entries (listing [] ''out'') = []"
    by (simp add: run_entries_def listing_def)
  have e: "map (\<lambda>i. run_name (int i)) [1 ..< Suc (length [True, False, True])] =
           [''run_1'', ''run_2'', ''run_3'']"
    by code_simp
  have e2: "map (\<lambda>i. path_join ''out'' (run_name (int i))) [1 ..< Suc 3] =
           [''out/run_1'', ''out/run_2'', ''out/run_3'']"
    by code_simp
  note th = run_ids_are_one_to_n[OF h1 h2 h3, of "[True, False, True]" 3 ex_args]
  from th[THEN conjunct1] obtain base' s' where
    1: "allocate_runs [True, False, True] None
       \<lparr> current_session_dir = ''mflux_output_20250308_170709'', run_counter = 0 \<rparr> =
       Inr (base', s', map (\<lambda>i. run_name (int i)) [1 ..< Suc (length [True, False, True])])"
    by (elim exE conjE)
  from th[THEN conjunct2] obtain w' where
    2: "make_runs 3 [] ''out'' ex_args =
          Inr (w', map (\<lambda>i. path_join ''out'' (run_name (int i))) [1 ..< Suc 3])"
    by (elim exE conjE)
  have A: "\<exists>base' s'.
     allocate_runs [True, False, True] None
       \<lparr> current_session_dir = ''mflux_output_20250308_170709'', run_counter = 0 \<rparr> =
       Inr (base', s', [''run_1'', ''run_2'', ''run_3''])"
    using 1 unfolding e by (intro exI)
  have B: "\<exists>w'. make_runs 3 [] ''out'' ex_args = Inr (w', [''out/run_1'', ''out/run_2'', ''out/run_3''])"
    using 2 unfolding e2 by (intro exI)
  show ?thesis using A B by (rule conjI)
qed

end
